theory Spec2Isabelle
  imports Complex_Main
begin

section \<open>Python and numpy values\<close>

text \<open>
  The exceptions the modelled code can raise. Every \<open>raise\<close> of the source, and every
  failing index, slice assignment or assertion, is an \<open>Inl\<close> result.
\<close>

datatype error = IndexError | TypeError | ValueError | AssertionError | AttributeError

definition bindE :: "error + 'a \<Rightarrow> ('a \<Rightarrow> error + 'b) \<Rightarrow> error + 'b" where
  "bindE m f = (case m of Inl e \<Rightarrow> Inl e | Inr x \<Rightarrow> f x)"

text \<open>
  A value that an action buffer, or a control field of an agent, can hold: a Python
  integer, a floating-point scalar, or a one-dimensional numpy array of floats.
  Floats are modelled as reals.
\<close>

datatype pyval = PInt int | PFloat real | PArr "real list"

definition zeros :: "nat \<Rightarrow> real list" where
  "zeros k = replicate k 0"

text \<open>Python indexing \<open>xs[i]\<close>: a negative index counts from the end.\<close>

definition py_index :: "'a list \<Rightarrow> int \<Rightarrow> error + 'a" where
  "py_index xs i =
     (let len = int (length xs); j = (if i < 0 then i + len else i)
      in if 0 \<le> j \<and> j < len then Inr (xs ! nat j) else Inl IndexError)"

text \<open>
  Python slicing \<open>xs[a:b]\<close>: both bounds are normalised (a negative bound counts from
  the end) and clamped to the length; the result is the start and the number of
  elements of the slice.
\<close>

definition slice_norm :: "nat \<Rightarrow> int \<Rightarrow> nat" where
  "slice_norm len k = nat (if k < 0 then max (k + int len) 0 else min k (int len))"

definition slice_bounds :: "nat \<Rightarrow> int \<Rightarrow> int \<Rightarrow> nat \<times> nat" where
  "slice_bounds len a b = (slice_norm len a, slice_norm len b - slice_norm len a)"

definition py_slice :: "'a list \<Rightarrow> int \<Rightarrow> int \<Rightarrow> 'a list" where
  "py_slice xs a b =
     (case slice_bounds (length xs) a b of (s, l) \<Rightarrow> take l (drop s xs))"

text \<open>
  numpy slice assignment \<open>dst[a:b] = src\<close> on one-dimensional arrays: the source must
  have the length of the destination slice, or length one (it is then broadcast);
  anything else raises.
\<close>

definition slice_assign :: "real list \<Rightarrow> int \<Rightarrow> int \<Rightarrow> real list \<Rightarrow> error + real list" where
  "slice_assign dst a b src =
     (case slice_bounds (length dst) a b of (s, l) \<Rightarrow>
        if length src = l then Inr (take s dst @ src @ drop (s + l) dst)
        else (case src of [x] \<Rightarrow> Inr (take s dst @ replicate l x @ drop (s + l) dst)
              | _ \<Rightarrow> Inl ValueError))"

text \<open>numpy subtraction of one-dimensional arrays, with broadcasting of length one.\<close>

definition vsub :: "real list \<Rightarrow> real list \<Rightarrow> error + real list" where
  "vsub xs ys =
     (if length xs = length ys then Inr (map2 (-) xs ys)
      else (case xs of [x] \<Rightarrow> Inr (map (\<lambda>y. x - y) ys)
            | _ \<Rightarrow> (case ys of [y] \<Rightarrow> Inr (map (\<lambda>x. x - y) xs)
                    | _ \<Rightarrow> Inl ValueError)))"

text \<open>A list comprehension or append loop whose body can raise: the first error wins.\<close>

fun collect :: "(error + 'a) list \<Rightarrow> error + 'a list" where
  "collect [] = Inr []"
| "collect (m # ms) =
     (case m of Inl e \<Rightarrow> Inl e
      | Inr x \<Rightarrow> (case collect ms of Inl e \<Rightarrow> Inl e | Inr xs \<Rightarrow> Inr (x # xs)))"

text \<open>\<open>np.cumsum\<close> on a list of integers.\<close>

fun cumsum_from :: "int \<Rightarrow> int list \<Rightarrow> int list" where
  "cumsum_from acc [] = []"
| "cumsum_from acc (x # xs) = (acc + x) # cumsum_from (acc + x) xs"

definition cumsum :: "int list \<Rightarrow> int list" where
  "cumsum xs = cumsum_from 0 xs"

text \<open>
  \<open>np.concatenate(arrays, axis=0)\<close> on a list of one-dimensional arrays; an empty list
  of arrays raises.
\<close>

definition concatenate :: "real list list \<Rightarrow> error + real list" where
  "concatenate arrs = (if arrs = [] then Inl ValueError else Inr (concat arrs))"

section \<open>The world, as the environment reads it\<close>

text \<open>
  Modelled from the spec: the classes \<open>World\<close>, \<open>Agent\<close> and \<open>Landmark\<close> of
  \<open>multiagent/core.py\<close>, which the environment only uses through the attributes below.
  \<open>scripted\<close> stands for "\<open>action_callback\<close> is not \<open>None\<close>": the policy agents are the
  agents whose actions come from outside. \<open>discrete_action\<close> and \<open>collaborative\<close> are
  optional attributes (\<open>hasattr\<close>).
\<close>

record Agent =
  movable :: bool
  silent :: bool
  accel :: "real option"
  u_range :: real
  scripted :: bool
  p_pos :: "real list"
  p_vel :: "real list"
  action_u :: pyval
  action_c :: pyval

record Landmark =
  lm_pos :: "real list"

record World =
  dim_p :: nat
  dim_c :: nat
  agents :: "Agent list"
  landmarks :: "Landmark list"
  discrete_action :: "bool option"
  collaborative :: "bool option"

definition policy_agents :: "World \<Rightarrow> Agent list" where
  "policy_agents w = filter (\<lambda>a. \<not> scripted a) (agents w)"

section \<open>Action spaces\<close>

text \<open>
  The gym spaces the constructor builds. \<open>Box low high k\<close> has shape \<open>(k,)\<close>.
  Modelled from the spec: \<open>MultiDiscrete\<close> of \<open>multiagent/multi_discrete.py\<close> keeps, for
  each block, the pair of bounds it was built from; its \<open>low\<close> and \<open>high\<close> are the first
  and second components.
\<close>

datatype space =
    Discrete nat
  | Box real real nat
  | MultiDiscrete "(int \<times> int) list"
  | Tuple "space list"

fun is_Discrete :: "space \<Rightarrow> bool" where
  "is_Discrete (Discrete k) = True"
| "is_Discrete _ = False"

text \<open>\<open>[0, act_space.n - 1]\<close>; only a \<open>Discrete\<close> space has the attribute \<open>n\<close>.\<close>

fun block_bounds :: "space \<Rightarrow> error + (int \<times> int)" where
  "block_bounds (Discrete k) = Inr (0, int k - 1)"
| "block_bounds _ = Inl AttributeError"

section \<open>The environment\<close>

type_synonym info = "(string \<times> real) list"

datatype ndarray = Ints "int list" | Floats "real list"

record MultiAgentEnv =
  world :: World
  n_agents :: nat
  reset_callback :: "(World \<Rightarrow> World) option"
  reward_callback :: "(Agent \<Rightarrow> World \<Rightarrow> real) option"
  observation_callback :: "(Agent \<Rightarrow> World \<Rightarrow> real list) option"
  info_callback :: "(Agent \<Rightarrow> World \<Rightarrow> info) option"
  done_callback :: "(Agent \<Rightarrow> World \<Rightarrow> bool) option"
  discrete_action_space :: bool
  discrete_action_input :: bool
  force_discrete_action :: bool
  shared_reward :: bool
  time :: real
  time_limit :: real
  num_episodes :: nat
  action_space :: "space list"
  observation_space :: "nat list"
  obs_n :: "real list list"
  translate_observation :: "int list option"
  translate_state :: "int list option"

subsection \<open>Global state and observations\<close>

text \<open>
  The translation loop shared by \<open>get_obs_agent\<close> and \<open>get_state\<close>:
  \<open>for i in range(len(tr) - 1): new[tr[i]:tr[i] + size] = flat[st[i]:st[i+1]]\<close>
  with \<open>size = st[i+1] - st[i]\<close>. \<open>st\<close> is a numpy array, \<open>tr\<close> a sequence of integers.
\<close>

fun translate_loop :: "int list \<Rightarrow> int list \<Rightarrow> real list \<Rightarrow> nat list \<Rightarrow> real list
    \<Rightarrow> error + real list" where
  "translate_loop tr st flat [] new = Inr new"
| "translate_loop tr st flat (i # rest) new =
     (case py_index st (int i + 1) of Inl e \<Rightarrow> Inl e
      | Inr hi \<Rightarrow>
     (case py_index st (int i) of Inl e \<Rightarrow> Inl e
      | Inr lo \<Rightarrow>
     (case py_index tr (int i) of Inl e \<Rightarrow> Inl e
      | Inr off \<Rightarrow>
     (case slice_assign new off (off + (hi - lo)) (py_slice flat lo hi) of Inl e \<Rightarrow> Inl e
      | Inr new' \<Rightarrow> translate_loop tr st flat rest new'))))"

definition translate :: "int list \<Rightarrow> int list \<Rightarrow> real list \<Rightarrow> error + real list" where
  "translate tr st flat =
     (case py_index tr (- 1) of Inl e \<Rightarrow> Inl e
      | Inr width \<Rightarrow>
          if width < 0 then Inl ValueError
          else translate_loop tr st flat [0 ..< length tr - 1] (zeros (nat width)))"

definition get_state :: "MultiAgentEnv \<Rightarrow> bool \<Rightarrow> error + ndarray" where
  "get_state env structure =
     (let w = world env;
          state = concat (map (\<lambda>a. [p_pos a, p_vel a]) (agents w)) @ map lm_pos (landmarks w);
          state_structure = [0, int (length (agents w)) * 4, int (length (agents w)) * 2]
      in case concatenate state of Inl e \<Rightarrow> Inl e
         | Inr flat \<Rightarrow>
             if structure then Inr (Ints (cumsum state_structure))
             else (case translate_state env of
                     Some tr \<Rightarrow> map_sum id Floats (translate tr (cumsum state_structure) flat)
                   | None \<Rightarrow> Inr (Floats flat)))"

definition get_obs_agent :: "MultiAgentEnv \<Rightarrow> int \<Rightarrow> bool \<Rightarrow> error + ndarray" where
  "get_obs_agent env agent_id structure =
     (let w = world env in
      case py_index (agents w) agent_id of Inl e \<Rightarrow> Inl e
      | Inr agent \<Rightarrow>
     (case collect (map (\<lambda>(i, a). vsub (p_pos agent) (p_pos a))
                     (filter (\<lambda>(i, a). int i \<noteq> agent_id) (enumerate 0 (agents w)))) of
        Inl e \<Rightarrow> Inl e
      | Inr others \<Rightarrow>
     (case collect (map (\<lambda>l. vsub (lm_pos l) (p_pos agent)) (landmarks w)) of
        Inl e \<Rightarrow> Inl e
      | Inr lms \<Rightarrow>
          let obs = [p_pos agent, p_vel agent] @ others @ lms;
              obs_structure = [0, 4, 2 * (int (length (agents w)) - 1),
                               2 * int (length (landmarks w))]
          in if structure then Inr (Ints (cumsum obs_structure))
             else (case translate_observation env of
                     Some tr \<Rightarrow>
                       (case concatenate obs of Inl e \<Rightarrow> Inl e
                        | Inr flat \<Rightarrow> map_sum id Floats (translate tr (cumsum obs_structure) flat))
                   | None \<Rightarrow> map_sum id Floats (concatenate obs)))))"

subsection \<open>Space construction\<close>

text \<open>
  The body of the constructor's loop over the policy agents that builds one agent's
  action space. \<open>total_action_space[0]\<close> on an empty list raises.
\<close>

definition agent_action_space :: "bool \<Rightarrow> World \<Rightarrow> Agent \<Rightarrow> error + space" where
  "agent_action_space discrete w agent =
     (let u_action_space =
            (if discrete then Discrete (dim_p w * 2 + 1)
             else Box (- u_range agent) (u_range agent) (dim_p w));
          c_action_space =
            (if discrete then Discrete (dim_c w) else Box 0 1 (dim_c w));
          total_action_space =
            (if movable agent then [u_action_space] else []) @
            (if \<not> silent agent then [c_action_space] else [])
      in if length total_action_space > 1 then
           (if list_all is_Discrete total_action_space then
              map_sum id MultiDiscrete (collect (map block_bounds total_action_space))
            else Inr (Tuple total_action_space))
         else (case total_action_space of [] \<Rightarrow> Inl IndexError | s # _ \<Rightarrow> Inr s))"

text \<open>
  The constructor. Each round of its loop builds the action space of one policy agent,
  measures one observation of the callback (a missing callback cannot be called) and
  zeroes the agent's communication control. The rendering fields are left out.
\<close>

fun init_loop :: "bool \<Rightarrow> (Agent \<Rightarrow> World \<Rightarrow> real list) option \<Rightarrow> World \<Rightarrow> Agent list
    \<Rightarrow> error + (space \<times> nat \<times> Agent) list" where
  "init_loop discrete oc w [] = Inr []"
| "init_loop discrete oc w (agent # rest) =
     (case agent_action_space discrete w agent of Inl e \<Rightarrow> Inl e
      | Inr sp \<Rightarrow>
     (case oc of None \<Rightarrow> Inl TypeError
      | Some f \<Rightarrow>
     (case init_loop discrete oc w rest of Inl e \<Rightarrow> Inl e
      | Inr out \<Rightarrow>
          Inr ((sp, length (f agent w), agent\<lparr>action_c := PArr (zeros (dim_c w))\<rparr>) # out))))"

text \<open>
  Writing the updated policy agents back: the policy agents are objects shared with
  \<open>world.agents\<close>, so an update of the k-th policy agent is an update of the world.
\<close>

fun put_policy_agents :: "Agent list \<Rightarrow> Agent list \<Rightarrow> Agent list" where
  "put_policy_agents [] new = []"
| "put_policy_agents (a # as) new =
     (if scripted a then a # put_policy_agents as new
      else (case new of [] \<Rightarrow> a # put_policy_agents as []
            | b # bs \<Rightarrow> b # put_policy_agents as bs))"

definition init :: "World \<Rightarrow> (World \<Rightarrow> World) option \<Rightarrow> (Agent \<Rightarrow> World \<Rightarrow> real) option
    \<Rightarrow> (Agent \<Rightarrow> World \<Rightarrow> real list) option \<Rightarrow> (Agent \<Rightarrow> World \<Rightarrow> info) option
    \<Rightarrow> (Agent \<Rightarrow> World \<Rightarrow> bool) option \<Rightarrow> bool \<Rightarrow> bool \<Rightarrow> real
    \<Rightarrow> error + MultiAgentEnv" where
  "init w rc rwc oc ic dc discrete discrete_input limit =
     (case init_loop discrete oc w (policy_agents w) of Inl e \<Rightarrow> Inl e
      | Inr out \<Rightarrow>
          Inr \<lparr> world = w\<lparr>agents := put_policy_agents (agents w) (map (snd \<circ> snd) out)\<rparr>,
                n_agents = length (policy_agents w),
                reset_callback = rc, reward_callback = rwc, observation_callback = oc,
                info_callback = ic, done_callback = dc,
                discrete_action_space = discrete,
                discrete_action_input = discrete_input,
                force_discrete_action = (case discrete_action w of Some b \<Rightarrow> b | None \<Rightarrow> False),
                shared_reward = (case collaborative w of Some b \<Rightarrow> b | None \<Rightarrow> False),
                time = 0, time_limit = limit, num_episodes = 0,
                action_space = map fst out,
                observation_space = map (fst \<circ> snd) out,
                obs_n = [],
                translate_observation = None, translate_state = None \<rparr>)"

subsection \<open>Decoding an action\<close>

text \<open>
  The split of a \<open>MultiDiscrete\<close> buffer: \<open>act.append(action[index:(index+s)])\<close> for each
  block size \<open>s = high - low + 1\<close>. A Python integer or float cannot be sliced.
\<close>

fun split_blocks :: "int list \<Rightarrow> int \<Rightarrow> pyval \<Rightarrow> error + pyval list" where
  "split_blocks [] index action = Inr []"
| "split_blocks (s # sizes) index action =
     (case action of
        PArr xs \<Rightarrow>
          (case split_blocks sizes (index + s) action of Inl e \<Rightarrow> Inl e
           | Inr act \<Rightarrow> Inr (PArr (py_slice xs index (index + s)) # act))
      | _ \<Rightarrow> Inl TypeError)"

fun split_action :: "space \<Rightarrow> pyval \<Rightarrow> error + pyval list" where
  "split_action (MultiDiscrete bs) action =
     split_blocks (map (\<lambda>(lo, hi). hi - lo + 1) bs) 0 action"
| "split_action sp action = Inr [action]"

text \<open>
  The truth value of \<open>action[0] == k\<close> in an \<open>if\<close>: a comparison of an array is
  elementwise, and only an array of at most one element has a truth value (the empty
  one is false in the numpy releases the code was written for).
\<close>

fun truth_eq :: "pyval \<Rightarrow> int \<Rightarrow> error + bool" where
  "truth_eq (PInt i) k = Inr (i = k)"
| "truth_eq (PFloat x) k = Inr (x = of_int k)"
| "truth_eq (PArr []) k = Inr False"
| "truth_eq (PArr [x]) k = Inr (x = of_int k)"
| "truth_eq (PArr (x # y # xs)) k = Inl ValueError"

text \<open>\<open>u[i] = v\<close> and \<open>a[i]\<close> on a one-dimensional array, for an index that is not negative.\<close>

definition set_item :: "real list \<Rightarrow> nat \<Rightarrow> real \<Rightarrow> error + real list" where
  "set_item u i v = (if i < length u then Inr (u[i := v]) else Inl IndexError)"

fun get_item :: "pyval \<Rightarrow> nat \<Rightarrow> error + real" where
  "get_item (PArr xs) i = (if i < length xs then Inr (xs ! i) else Inl IndexError)"
| "get_item v i = Inl TypeError"

text \<open>\<open>if action[0] == k: agent.action.u[i] = v\<close>\<close>

definition discrete_move :: "pyval \<Rightarrow> int \<Rightarrow> nat \<Rightarrow> real \<Rightarrow> real list \<Rightarrow> error + real list" where
  "discrete_move a k i v u =
     bindE (truth_eq a k) (\<lambda>b. if b then set_item u i v else Inr u)"

text \<open>\<open>np.argmax\<close>: the first index of a maximal element.\<close>

definition argmax :: "real list \<Rightarrow> nat" where
  "argmax xs = length (takeWhile (\<lambda>x. \<exists>y \<in> set xs. x < y) xs)"

text \<open>\<open>d = np.argmax(action[0]); action[0][:] = 0.0; action[0][d] = 1.0\<close>\<close>

fun snap_one_hot :: "pyval \<Rightarrow> error + pyval" where
  "snap_one_hot (PArr []) = Inl ValueError"
| "snap_one_hot (PArr xs) = Inr (PArr ((zeros (length xs))[argmax xs := 1]))"
| "snap_one_hot v = Inl TypeError"

text \<open>\<open>agent.action.u[i] += a[j] - a[k]\<close>: the target is read first.\<close>

definition push_pull :: "pyval \<Rightarrow> nat \<Rightarrow> nat \<Rightarrow> nat \<Rightarrow> real list \<Rightarrow> error + real list" where
  "push_pull a i j k u =
     (if i < length u then
        bindE (get_item a j) (\<lambda>x. bindE (get_item a k) (\<lambda>y. Inr (u[i := u ! i + (x - y)])))
      else Inl IndexError)"

text \<open>\<open>agent.action.u *= sensitivity\<close>\<close>

fun scale :: "pyval \<Rightarrow> real \<Rightarrow> pyval" where
  "scale (PArr xs) s = PArr (map (\<lambda>x. x * s) xs)"
| "scale (PInt i) s = PFloat (of_int i * s)"
| "scale (PFloat x) s = PFloat (x * s)"

text \<open>The movement part of \<open>_set_action\<close>, for a movable agent, up to the scaling.\<close>

definition physical_action :: "MultiAgentEnv \<Rightarrow> pyval \<Rightarrow> error + pyval" where
  "physical_action env a =
     (let u = zeros (dim_p (world env)) in
      if discrete_action_input env then
        map_sum id PArr
          (bindE (discrete_move a 1 0 (- 1) u) (\<lambda>u.
           bindE (discrete_move a 2 0 1 u) (\<lambda>u.
           bindE (discrete_move a 3 1 (- 1) u) (\<lambda>u.
           discrete_move a 4 1 1 u))))
      else
        bindE (if force_discrete_action env then snap_one_hot a else Inr a) (\<lambda>a.
          if discrete_action_space env then
            map_sum id PArr (bindE (push_pull a 0 1 2 u) (\<lambda>u. push_pull a 1 3 4 u))
          else Inr a))"

text \<open>\<open>agent.action.c[action[0]] = 1.0\<close>: only an integer is an index.\<close>

fun one_hot_at :: "nat \<Rightarrow> pyval \<Rightarrow> error + real list" where
  "one_hot_at k (PInt i) =
     (let j = (if i < 0 then i + int k else i)
      in if 0 \<le> j \<and> j < int k then Inr ((zeros k)[nat j := 1]) else Inl IndexError)"
| "one_hot_at k v = Inl IndexError"

text \<open>The communication part of \<open>_set_action\<close>, for an agent that is not silent.\<close>

definition communication_action :: "MultiAgentEnv \<Rightarrow> pyval \<Rightarrow> error + pyval" where
  "communication_action env a =
     (if discrete_action_input env then map_sum id PArr (one_hot_at (dim_c (world env)) a)
      else Inr a)"

text \<open>
  \<open>_set_action(action, agent, action_space)\<close>: the agent with its two control fields
  written, or the exception raised.
\<close>

definition set_action :: "MultiAgentEnv \<Rightarrow> pyval \<Rightarrow> Agent \<Rightarrow> space \<Rightarrow> error + Agent" where
  "set_action env action agent sp =
     (let agent = agent\<lparr>action_u := PArr (zeros (dim_p (world env))),
                       action_c := PArr (zeros (dim_c (world env)))\<rparr> in
      bindE (split_action sp action) (\<lambda>action.
      bindE (if movable agent then
               (case action of [] \<Rightarrow> Inl IndexError
                | a # rest \<Rightarrow>
                    bindE (physical_action env a) (\<lambda>u.
                      let sensitivity = (case accel agent of Some s \<Rightarrow> s | None \<Rightarrow> 5)
                      in Inr (agent\<lparr>action_u := scale u sensitivity\<rparr>, rest)))
             else Inr (agent, action)) (\<lambda>(agent, action).
      bindE (if \<not> silent agent then
               (case action of [] \<Rightarrow> Inl IndexError
                | a # rest \<Rightarrow>
                    bindE (communication_action env a) (\<lambda>c.
                      Inr (agent\<lparr>action_c := c\<rparr>, rest)))
             else Inr (agent, action)) (\<lambda>(agent, action).
      if length action = 0 then Inr agent else Inl AssertionError))))"

subsection \<open>Stepping and resetting\<close>

text \<open>The callbacks with their defaults.\<close>

definition get_info :: "MultiAgentEnv \<Rightarrow> World \<Rightarrow> Agent \<Rightarrow> info" where
  "get_info env w agent = (case info_callback env of None \<Rightarrow> [] | Some f \<Rightarrow> f agent w)"

definition get_obs_cb :: "MultiAgentEnv \<Rightarrow> World \<Rightarrow> Agent \<Rightarrow> real list" where
  "get_obs_cb env w agent =
     (case observation_callback env of None \<Rightarrow> zeros 0 | Some f \<Rightarrow> f agent w)"

definition get_done :: "MultiAgentEnv \<Rightarrow> World \<Rightarrow> Agent \<Rightarrow> bool" where
  "get_done env w agent = (case done_callback env of None \<Rightarrow> False | Some f \<Rightarrow> f agent w)"

definition get_reward :: "MultiAgentEnv \<Rightarrow> World \<Rightarrow> Agent \<Rightarrow> real" where
  "get_reward env w agent = (case reward_callback env of None \<Rightarrow> 0 | Some f \<Rightarrow> f agent w)"

text \<open>
  \<open>for i, agent in enumerate(self.agents): self._set_action(action_n[i], agent,
  self.action_space[i])\<close>
\<close>

fun set_actions :: "MultiAgentEnv \<Rightarrow> pyval list \<Rightarrow> nat \<Rightarrow> Agent list \<Rightarrow> error + Agent list" where
  "set_actions env action_n i [] = Inr []"
| "set_actions env action_n i (agent # rest) =
     (if i < length action_n \<and> i < length (action_space env) then
        (case set_action env (action_n ! i) agent (action_space env ! i) of Inl e \<Rightarrow> Inl e
         | Inr agent' \<Rightarrow>
             (case set_actions env action_n (i + 1) rest of Inl e \<Rightarrow> Inl e
              | Inr out \<Rightarrow> Inr (agent' # out)))
      else Inl IndexError)"

text \<open>
  The local variables of \<open>step\<close> when it returns. \<open>reward_n\<close> and \<open>done_n\<close> are
  computed and dropped: \<open>step\<close> returns \<open>reward\<close>, \<open>done\<close> and \<open>info_n\<close> only.
\<close>

record step_locals =
  l_obs_n :: "real list list"
  l_reward_n :: "real list"
  l_done_n :: "bool list"
  l_info_n :: "info list"
  l_reward :: real
  l_done :: real

text \<open>
  The part of \<open>step\<close> after \<open>self.world.step()\<close>, on the world \<open>w\<close> that the external
  step produced. The policy agents are the objects that were decoded into, as the
  world step left them.
\<close>

definition step_record :: "MultiAgentEnv \<Rightarrow> World \<Rightarrow> step_locals" where
  "step_record env w =
     (let ags = policy_agents w;
          obs_n = map (get_obs_cb env w) ags;
          reward_n = map (get_reward env w) ags;
          done_n = map (get_done env w) ags;
          info_n = map (get_info env w) ags;
          reward = sum_list reward_n;
          reward_n = (if shared_reward env then replicate (n_agents env) reward else reward_n);
          done = (if time env + 1 = time_limit env then 1 else 0)
      in \<lparr> l_obs_n = obs_n, l_reward_n = reward_n, l_done_n = done_n, l_info_n = info_n,
            l_reward = reward, l_done = done \<rparr>)"

text \<open>
  \<open>step(action_n)\<close>. The world's own \<open>step\<close> is external and is the parameter
  \<open>world_step\<close>. The result is \<open>(reward, done, info_n)\<close> and the environment after the
  call.
\<close>

definition step :: "(World \<Rightarrow> World) \<Rightarrow> MultiAgentEnv \<Rightarrow> pyval list
    \<Rightarrow> error + ((real \<times> real \<times> info list) \<times> MultiAgentEnv)" where
  "step world_step env action_n =
     (let w = world env in
      case set_actions env action_n 0 (policy_agents w) of Inl e \<Rightarrow> Inl e
      | Inr ags \<Rightarrow>
          let w' = world_step (w\<lparr>agents := put_policy_agents (agents w) ags\<rparr>);
              l = step_record env w'
          in Inr ((l_reward l, l_done l, l_info_n l),
                  env\<lparr>world := w', obs_n := l_obs_n l, time := time env + 1\<rparr>))"

text \<open>\<open>get_obs\<close>: one observation for each index of a policy agent.\<close>

definition get_obs :: "MultiAgentEnv \<Rightarrow> error + ndarray list" where
  "get_obs env =
     collect (map (\<lambda>(agent_id, agent). get_obs_agent env (int agent_id) False)
                (enumerate 0 (policy_agents (world env))))"

text \<open>\<open>reset(evaluate)\<close>: the observations and the environment after the call.\<close>

definition reset :: "MultiAgentEnv \<Rightarrow> bool \<Rightarrow> error + (ndarray list \<times> MultiAgentEnv)" where
  "reset env evaluate =
     (case reset_callback env of None \<Rightarrow> Inl TypeError
      | Some f \<Rightarrow>
          let env' = env\<lparr>world := f (world env), time := 0,
                         num_episodes := (if \<not> evaluate then num_episodes env + 1
                                          else num_episodes env)\<rparr>
          in map_sum id (\<lambda>obs. (obs, env')) (get_obs env'))"

text \<open>
  A run of \<open>step\<close> calls, one for each list of actions: the termination flags returned,
  in order, and the environment at the end.
\<close>

fun run_steps :: "(World \<Rightarrow> World) \<Rightarrow> MultiAgentEnv \<Rightarrow> pyval list list
    \<Rightarrow> error + (real list \<times> MultiAgentEnv)" where
  "run_steps world_step env [] = Inr ([], env)"
| "run_steps world_step env (action_n # rest) =
     (case step world_step env action_n of Inl e \<Rightarrow> Inl e
      | Inr ((reward, done, info_n), env') \<Rightarrow>
          (case run_steps world_step env' rest of Inl e \<Rightarrow> Inl e
           | Inr (flags, env'') \<Rightarrow> Inr (done # flags, env'')))"

section \<open>The observation layout in the specification's words\<close>

text \<open>
  The three segments of one agent's observation, as the specification lists them: own
  position and velocity; for every other agent, in order, own position minus the
  other's; for every landmark, in order, the landmark's position minus own position.
\<close>

definition obs_self :: "World \<Rightarrow> nat \<Rightarrow> real list" where
  "obs_self w k = p_pos (agents w ! k) @ p_vel (agents w ! k)"

definition obs_others :: "World \<Rightarrow> nat \<Rightarrow> real list" where
  "obs_others w k =
     concat (map (\<lambda>a. map2 (-) (p_pos (agents w ! k)) (p_pos a))
               (take k (agents w) @ drop (Suc k) (agents w)))"

definition obs_landmarks :: "World \<Rightarrow> nat \<Rightarrow> real list" where
  "obs_landmarks w k =
     concat (map (\<lambda>l. map2 (-) (lm_pos l) (p_pos (agents w ! k))) (landmarks w))"

definition obs_flat :: "World \<Rightarrow> nat \<Rightarrow> real list" where
  "obs_flat w k = obs_self w k @ obs_others w k @ obs_landmarks w k"

text \<open>The widths the specification records for the three segments, and their boundaries.\<close>

definition obs_widths :: "World \<Rightarrow> int list" where
  "obs_widths w = [4, 2 * (int (length (agents w)) - 1), 2 * int (length (landmarks w))]"

definition obs_descriptor :: "World \<Rightarrow> int list" where
  "obs_descriptor w = cumsum (0 # obs_widths w)"

text \<open>A world whose positions and velocities are all two-dimensional.\<close>

definition planar :: "World \<Rightarrow> bool" where
  "planar w =
     (list_all (\<lambda>a. length (p_pos a) = 2 \<and> length (p_vel a) = 2) (agents w) \<and>
      list_all (\<lambda>l. length (lm_pos l) = 2) (landmarks w))"

text \<open>
  A translation map for three segments, as the specification's data model has it: one
  offset for each segment and the destination width last; every segment lies inside the
  destination, and no two segments overlap.
\<close>

definition seg_inside :: "int list \<Rightarrow> int list \<Rightarrow> nat \<Rightarrow> bool" where
  "seg_inside tr ws i = (0 \<le> tr ! i \<and> tr ! i + ws ! i \<le> tr ! 3)"

definition seg_apart :: "int list \<Rightarrow> int list \<Rightarrow> nat \<Rightarrow> nat \<Rightarrow> bool" where
  "seg_apart tr ws i j = (tr ! i + ws ! i \<le> tr ! j \<or> tr ! j + ws ! j \<le> tr ! i)"

definition valid_map :: "int list \<Rightarrow> int list \<Rightarrow> bool" where
  "valid_map tr ws =
     (length tr = 4 \<and> seg_inside tr ws 0 \<and> seg_inside tr ws 1 \<and> seg_inside tr ws 2 \<and>
      seg_apart tr ws 0 1 \<and> seg_apart tr ws 0 2 \<and> seg_apart tr ws 1 2)"

text \<open>
  The mapping table of the discrete-index movement, for the values 0 to 4: no movement,
  negative and positive unit on axis 0, negative and positive unit on axis 1.
\<close>

definition movement_table :: "nat \<Rightarrow> int \<Rightarrow> real list" where
  "movement_table dp v =
     (if v = 1 then (zeros dp)[0 := - 1]
      else if v = 2 then (zeros dp)[0 := 1]
      else if v = 3 then (zeros dp)[1 := - 1]
      else if v = 4 then (zeros dp)[1 := 1]
      else zeros dp)"

section \<open>Example worlds\<close>

definition agent0 :: Agent where
  "agent0 = \<lparr> movable = True, silent = True, accel = None, u_range = 1, scripted = False,
              p_pos = [0, 0], p_vel = [0, 0], action_u = PArr [], action_c = PArr [] \<rparr>"

definition world_1_2 :: World where
  "world_1_2 = \<lparr> dim_p = 2, dim_c = 2, agents = [agent0],
                 landmarks = [\<lparr>lm_pos = [1, 1]\<rparr>, \<lparr>lm_pos = [2, 3]\<rparr>],
                 discrete_action = None, collaborative = None \<rparr>"

definition world_2_1 :: World where
  "world_2_1 = \<lparr> dim_p = 2, dim_c = 2,
                 agents = [agent0\<lparr>p_pos := [1, 2], p_vel := [3, 4]\<rparr>,
                           agent0\<lparr>p_pos := [5, 7], p_vel := [0, 0]\<rparr>],
                 landmarks = [\<lparr>lm_pos = [10, 20]\<rparr>],
                 discrete_action = None, collaborative = None \<rparr>"


definition env_of :: "World \<Rightarrow> space list \<Rightarrow> MultiAgentEnv" where
  "env_of w sps = \<lparr> world = w, n_agents = length (policy_agents w),
     reset_callback = Some (\<lambda>w. w), reward_callback = None, observation_callback = None,
     info_callback = None, done_callback = None,
     discrete_action_space = True, discrete_action_input = True,
     force_discrete_action = False, shared_reward = False,
     time = 0, time_limit = 25, num_episodes = 0,
     action_space = sps, observation_space = [], obs_n = [],
     translate_observation = None, translate_state = None \<rparr>"

definition talker :: Agent where
  "talker = agent0\<lparr>silent := False\<rparr>"

definition beacon :: Agent where
  "beacon = agent0\<lparr>movable := False, silent := False,
                   action_u := PArr [9, 9], action_c := PArr [7]\<rparr>"

definition env_one_hot :: MultiAgentEnv where
  "env_one_hot =
     (env_of world_1_2 [MultiDiscrete [(0, 4), (0, 1)]])\<lparr>discrete_action_input := False\<rparr>"

definition env_discrete :: MultiAgentEnv where
  "env_discrete = env_of world_1_2 [Discrete 5]"

definition env_pair :: MultiAgentEnv where
  "env_pair =
     env_of (world_1_2\<lparr>agents := [beacon, agent0\<lparr>action_c := PArr [3]\<rparr>]\<rparr>)
       [Discrete 2, Discrete 5]"

definition env_short :: MultiAgentEnv where
  "env_short = (env_of world_1_2 [Discrete 5])\<lparr>time := 7, time_limit := 2\<rparr>"


definition env_obs :: MultiAgentEnv where
  "env_obs = env_of world_2_1 [Discrete 5, Discrete 5]"

definition env_tr :: MultiAgentEnv where
  "env_tr = env_obs\<lparr>translate_observation := Some [0, 6, 8, 12]\<rparr>"

section \<open>Basic facts\<close>

lemma bindE_Inl [simp]: "bindE (Inl e) f = Inl e"
  by (simp add: bindE_def)

lemma bindE_Inr [simp]: "bindE (Inr x) f = f x"
  by (simp add: bindE_def)

lemma bindE_eq_Inr: "bindE m f = Inr y \<longleftrightarrow> (\<exists>x. m = Inr x \<and> f x = Inr y)"
  by (cases m) simp_all

lemma cumsum3: "cumsum [a, b, c] = [a, a + b, a + b + c]"
  by (simp add: cumsum_def)

lemma cumsum4: "cumsum [a, b, c, d] = [a, a + b, a + b + c, a + b + c + d]"
  by (simp add: cumsum_def)

section \<open>The structure descriptor of the global state\<close>

text \<open>
  C1. The claim: the structure descriptor of \<open>get_state\<close> has two widths after the
  initial 0, the first 4 times the number of agents and the second 2 times the number of
  landmarks. The code computes the second width from the number of agents: in a world
  of one agent and two landmarks the descriptor is \<open>[0, 4, 6]\<close>, its second width is 2
  and not 4, and its last entry is not the length 8 of the state vector.
\<close>

theorem get_state_structure_uses_agent_count:
  "get_state (env_of world_1_2 []) True = Inr (Ints [0, 4, 6]) \<and>
   2 * int (length (landmarks world_1_2)) = 4 \<and>
   map_sum id (\<lambda>v. case v of Floats xs \<Rightarrow> length xs | Ints ks \<Rightarrow> 0)
     (get_state (env_of world_1_2 []) False) = Inr 8"
  by (simp add: get_state_def env_of_def world_1_2_def agent0_def concatenate_def cumsum3)

section \<open>Agents that neither move nor speak\<close>

text \<open>
  C2. The claim: for an agent with \<open>movable = False\<close> and \<open>silent = True\<close> the
  constructor produces an empty composite action space, and decoding an empty buffer
  succeeds with both controls zero. In the code the constructor's loop reads
  \<open>total_action_space[0]\<close> of the empty list and raises, for both kinds of action space,
  so no environment is built; and \<open>_set_action\<close>, given any space that is not a
  \<open>MultiDiscrete\<close>, wraps the buffer into a one-element list that nothing consumes, and
  its final assertion fails.
\<close>

theorem immovable_silent_agent_rejected:
  "agent_action_space discrete w (agent\<lparr>movable := False, silent := True\<rparr>) = Inl IndexError \<and>
   init (world_1_2\<lparr>agents := [agent0\<lparr>movable := False\<rparr>]\<rparr>) rc rwc oc ic dc discrete
     discrete_input limit = Inl IndexError \<and>
   set_action env (PArr []) (agent\<lparr>movable := False, silent := True\<rparr>) (Discrete k)
     = Inl AssertionError \<and>
   set_action env (PArr []) (agent\<lparr>movable := False, silent := True\<rparr>) (Box lo hi k)
     = Inl AssertionError \<and>
   set_action env (PArr []) (agent\<lparr>movable := False, silent := True\<rparr>) (Tuple sps)
     = Inl AssertionError"
  by (simp add: agent_action_space_def init_def policy_agents_def world_1_2_def agent0_def
      set_action_def)

section \<open>Decoding: segments and leftovers\<close>

lemma slice_norm_nonneg: "0 \<le> k \<Longrightarrow> slice_norm len k = min (nat k) len"
  by (auto simp: slice_norm_def min_def)

lemma py_slice_nonneg:
  assumes "0 \<le> a" "a \<le> b"
  shows "py_slice xs a b = take (nat (b - a)) (drop (nat a) xs)"
proof (cases "nat a \<le> length xs")
  case True
  then show ?thesis
    using assms
    by (auto simp: py_slice_def slice_bounds_def slice_norm_nonneg min_def nat_diff_distrib)
next
  case False
  then show ?thesis
    using assms by (simp add: py_slice_def slice_bounds_def slice_norm_nonneg)
qed

text \<open>
  C3. The claim: a buffer of exactly the total width of the space decodes with nothing
  left over, and a shorter or longer buffer aborts the decode. The decode ends with
  \<open>assert len(action) == 0\<close> under the comment "make sure we used all elements of
  action", but what it counts are the segments the buffer was split into, and slicing
  never fails. For the space of a movable, communicating agent in a world with
  \<open>dim_p = 2\<close> and \<open>dim_c = 2\<close>, of total width 7, in one-hot mode: the buffer of 7
  elements decodes; a buffer of 8 elements decodes too, its last element unused; buffers
  of 6 and of 5 elements decode with a communication signal of one and of no element,
  where the signal has \<open>dim_c = 2\<close> elements.
\<close>

theorem wrong_length_buffer_decodes:
  "agent_action_space True world_1_2 talker = Inr (MultiDiscrete [(0, 4), (0, 1)]) \<and>
   set_action env_one_hot (PArr [0, 1, 0, 0, 0, 0, 1, 9]) talker (MultiDiscrete [(0, 4), (0, 1)])
     = Inr (talker\<lparr>action_u := PArr [5, 0], action_c := PArr [0, 1]\<rparr>) \<and>
   set_action env_one_hot (PArr [0, 1, 0, 0, 0, 1]) talker (MultiDiscrete [(0, 4), (0, 1)])
     = Inr (talker\<lparr>action_u := PArr [5, 0], action_c := PArr [1]\<rparr>) \<and>
   set_action env_one_hot (PArr [0, 1, 0, 0, 0]) talker (MultiDiscrete [(0, 4), (0, 1)])
     = Inr (talker\<lparr>action_u := PArr [5, 0], action_c := PArr []\<rparr>) \<and>
   set_action env_one_hot (PArr [0, 1, 0, 0, 0, 0, 1]) talker (MultiDiscrete [(0, 4), (0, 1)])
     = Inr (talker\<lparr>action_u := PArr [5, 0], action_c := PArr [0, 1]\<rparr>) \<and>
   dim_c (world env_one_hot) = 2"
  by (simp add: agent_action_space_def world_1_2_def talker_def agent0_def env_one_hot_def
      env_of_def set_action_def physical_action_def push_pull_def zeros_def
      communication_action_def py_slice_nonneg eval_nat_numeral)

section \<open>Decoding: the discrete movement table\<close>

lemma physical_action_discrete:
  assumes "discrete_action_input env" "2 \<le> dim_p (world env)"
  shows "physical_action env (PInt v) = Inr (PArr (movement_table (dim_p (world env)) v))"
  using assms
  by (simp add: physical_action_def discrete_move_def set_item_def zeros_def movement_table_def)

lemma set_action_movable_u:
  assumes "movable agent" "set_action env action agent sp = Inr agent'"
    "split_action sp action = Inr (a # rest)"
  shows "\<exists>u. physical_action env a = Inr u \<and>
     action_u agent' = scale u (case accel agent of Some s \<Rightarrow> s | None \<Rightarrow> 5)"
  using assms
  by (cases "silent agent")
     (auto simp: set_action_def Let_def bindE_eq_Inr split: if_splits list.splits)

lemma single_space:
  assumes "movable agent" "silent agent" "agent_action_space d w agent = Inr sp"
  shows "split_action sp action = Inr [action]"
  using assms by (auto simp: agent_action_space_def split: if_splits)

lemma set_action_single:
  assumes "movable agent" "silent agent" "split_action sp action = Inr [action]"
   "physical_action env action = Inr u"
  shows "set_action env action agent sp =
     Inr (agent\<lparr>action_u := scale u (case accel agent of Some s \<Rightarrow> s | None \<Rightarrow> 5),
               action_c := PArr (zeros (dim_c (world env)))\<rparr>)"
  using assms
  by (simp add: set_action_def Let_def)

text \<open>
  C4. For a movable agent decoded in discrete-action-input mode, in a world of at least
  two physical axes, the movement value 0 gives zero force, 1 and 2 the negative and
  positive unit on axis 0, 3 and 4 the negative and positive unit on axis 1, and the
  vector is multiplied by the agent's \<open>accel\<close> if it is set and by 5 otherwise. This is
  what the movement part of the decode computes for every movable agent, what every
  successful decode of a movable agent leaves in its force, and, for a silent agent
  with the space the constructor gives it, the decode succeeds with exactly that force
  and a zero communication signal.
\<close>

theorem discrete_index_movement:
  assumes "movable agent" "discrete_action_input env" "2 \<le> dim_p (world env)"
    "0 \<le> v" "v \<le> 4"
  shows "physical_action env (PInt v) = Inr (PArr (movement_table (dim_p (world env)) v)) \<and>
    (\<forall>action sp' agent' rest.
       set_action env action agent sp' = Inr agent' \<and>
       split_action sp' action = Inr (PInt v # rest) \<longrightarrow>
       action_u agent' =
         PArr (map (\<lambda>x. x * (case accel agent of Some s \<Rightarrow> s | None \<Rightarrow> 5))
                (movement_table (dim_p (world env)) v))) \<and>
    (silent agent \<and>
     agent_action_space (discrete_action_space env) (world env) agent = Inr sp \<longrightarrow>
       set_action env (PInt v) agent sp =
         Inr (agent\<lparr>action_u :=
                      PArr (map (\<lambda>x. x * (case accel agent of Some s \<Rightarrow> s | None \<Rightarrow> 5))
                             (movement_table (dim_p (world env)) v)),
                    action_c := PArr (zeros (dim_c (world env)))\<rparr>))"
proof -
  note phys = physical_action_discrete[OF assms(2,3), of v]
  have gen: "\<forall>action sp' agent' rest.
       set_action env action agent sp' = Inr agent' \<and>
       split_action sp' action = Inr (PInt v # rest) \<longrightarrow>
       action_u agent' =
         PArr (map (\<lambda>x. x * (case accel agent of Some s \<Rightarrow> s | None \<Rightarrow> 5))
                (movement_table (dim_p (world env)) v))"
  proof (intro allI impI)
    fix action :: pyval and sp' :: space and agent' :: Agent and rest :: "pyval list"
    assume h: "set_action env action agent sp' = Inr agent' \<and>
       split_action sp' action = Inr (PInt v # rest)"
    from set_action_movable_u[OF assms(1) conjunct1[OF h] conjunct2[OF h]] phys
    show "action_u agent' =
         PArr (map (\<lambda>x. x * (case accel agent of Some s \<Rightarrow> s | None \<Rightarrow> 5))
                (movement_table (dim_p (world env)) v))"
      by auto
  qed
  have sil: "silent agent \<and>
     agent_action_space (discrete_action_space env) (world env) agent = Inr sp \<longrightarrow>
       set_action env (PInt v) agent sp =
         Inr (agent\<lparr>action_u :=
                      PArr (map (\<lambda>x. x * (case accel agent of Some s \<Rightarrow> s | None \<Rightarrow> 5))
                             (movement_table (dim_p (world env)) v)),
                    action_c := PArr (zeros (dim_c (world env)))\<rparr>)"
  proof
    assume h: "silent agent \<and>
      agent_action_space (discrete_action_space env) (world env) agent = Inr sp"
    from single_space[OF assms(1) conjunct1[OF h] conjunct2[OF h]]
    have "split_action sp (PInt v) = Inr [PInt v]" .
    from set_action_single[OF assms(1) conjunct1[OF h] this phys]
    show "set_action env (PInt v) agent sp =
         Inr (agent\<lparr>action_u :=
                      PArr (map (\<lambda>x. x * (case accel agent of Some s \<Rightarrow> s | None \<Rightarrow> 5))
                             (movement_table (dim_p (world env)) v)),
                    action_c := PArr (zeros (dim_c (world env)))\<rparr>)"
      by simp
  qed
  from phys gen sil show ?thesis by blast
qed

theorem discrete_index_movement_witness:
  "set_action env_discrete (PInt 2) agent0 (Discrete 5) =
     Inr (agent0\<lparr>action_u := PArr [5, 0], action_c := PArr [0, 0]\<rparr>) \<and>
   physical_action env_discrete (PInt 2) = Inr (PArr [1, 0])"
proof -
  have hyps: "movable agent0" "discrete_action_input env_discrete"
    "2 \<le> dim_p (world env_discrete)" "(0::int) \<le> 2" "(2::int) \<le> 4"
    by (simp_all add: agent0_def env_discrete_def env_of_def world_1_2_def)
  have sp: "silent agent0 \<and>
     agent_action_space (discrete_action_space env_discrete) (world env_discrete) agent0
       = Inr (Discrete 5)"
    by (simp add: agent_action_space_def agent0_def env_discrete_def env_of_def world_1_2_def)
  have vals: "dim_p (world env_discrete) = 2" "dim_c (world env_discrete) = 2"
    "accel agent0 = None" "movement_table 2 2 = [1, 0]" "zeros 2 = [0, 0]"
    by (simp_all add: agent0_def env_discrete_def env_of_def world_1_2_def movement_table_def
        zeros_def eval_nat_numeral)
  from discrete_index_movement[OF hyps, of "Discrete 5"] sp show ?thesis
    by (simp add: vals)
qed

section \<open>Decoding: controls that are not used stay zero\<close>

lemma set_action_keeps:
  assumes "set_action env action agent sp = Inr agent'"
  shows "(\<not> movable agent \<longrightarrow> action_u agent' = PArr (zeros (dim_p (world env)))) \<and>
         (silent agent \<longrightarrow> action_c agent' = PArr (zeros (dim_c (world env)))) \<and>
         movable agent' = movable agent \<and> silent agent' = silent agent \<and>
         scripted agent' = scripted agent"
  using assms
  by (cases "movable agent"; cases "silent agent")
     (auto simp: set_action_def Let_def bindE_eq_Inr split: if_splits list.splits)

lemma set_actions_keep:
  "set_actions env action_n i ags = Inr ags' \<Longrightarrow>
   list_all2 (\<lambda>a a'. (\<not> movable a \<longrightarrow> action_u a' = PArr (zeros (dim_p (world env)))) \<and>
         (silent a \<longrightarrow> action_c a' = PArr (zeros (dim_c (world env)))) \<and>
         movable a' = movable a \<and> silent a' = silent a \<and> scripted a' = scripted a) ags ags'"
proof (induction ags arbitrary: i ags')
  case Nil
  then show ?case by simp
next
  case (Cons a ags)
  then show ?case
    by (auto split: if_splits sum.splits dest: set_action_keeps)
qed

lemma policy_put:
  "length new = length (filter (\<lambda>a. \<not> scripted a) as) \<Longrightarrow> list_all (\<lambda>a. \<not> scripted a) new \<Longrightarrow>
   filter (\<lambda>a. \<not> scripted a) (put_policy_agents as new) = new"
proof (induction as arbitrary: new)
  case Nil
  then show ?case by simp
next
  case (Cons a as)
  then show ?case by (cases new; cases "scripted a") auto
qed

lemma set_actions_policy:
  assumes "set_actions env action_n 0 (policy_agents w) = Inr ags"
  shows "policy_agents (w\<lparr>agents := put_policy_agents (agents w) ags\<rparr>) = ags"
proof -
  from set_actions_keep[OF assms]
  have l: "list_all2 (\<lambda>a a'. scripted a' = scripted a) (policy_agents w) ags"
    by (rule list_all2_mono) simp
  have len: "length ags = length (filter (\<lambda>a. \<not> scripted a) (agents w))"
    using l by (simp add: policy_agents_def list_all2_lengthD)
  have "list_all (\<lambda>a. \<not> scripted a) (policy_agents w)"
    by (simp add: policy_agents_def list_all_iff)
  with l have "list_all (\<lambda>a. \<not> scripted a) ags"
    by (auto simp: list_all_length list_all2_conv_all_nth)
  with len show ?thesis
    by (simp add: policy_agents_def policy_put)
qed

lemma step_Inr:
  assumes "step world_step env action_n = Inr (res, env')"
  shows "\<exists>ags. set_actions env action_n 0 (policy_agents (world env)) = Inr ags \<and>
     world env' = world_step (world env\<lparr>agents := put_policy_agents (agents (world env)) ags\<rparr>) \<and>
     res = (l_reward (step_record env (world env')), l_done (step_record env (world env')),
            l_info_n (step_record env (world env'))) \<and>
     env' = env\<lparr>world := world env', obs_n := l_obs_n (step_record env (world env')),
                time := time env + 1\<rparr>"
  using assms
  by (auto simp: step_def Let_def split: sum.splits)

text \<open>
  C10. Every decode first zeroes both control fields, whatever they held before. So
  after any successful decode the force of an agent that is not movable is the zero
  vector of length \<open>dim_p\<close> and the signal of a silent agent is the zero vector of length
  \<open>dim_c\<close>, whatever the buffer and the space; and in every successful step the world
  handed to the external world step holds, as its policy agents, agents decoded so.
\<close>

theorem decode_zeroes_unused_controls:
  "(set_action env action agent sp = Inr agent' \<longrightarrow>
      (\<not> movable agent \<longrightarrow> action_u agent' = PArr (zeros (dim_p (world env)))) \<and>
      (silent agent \<longrightarrow> action_c agent' = PArr (zeros (dim_c (world env))))) \<and>
   (step world_step env action_n = Inr (res, env') \<longrightarrow>
      (\<exists>ags. world env' =
                world_step (world env\<lparr>agents := put_policy_agents (agents (world env)) ags\<rparr>) \<and>
              policy_agents (world env\<lparr>agents := put_policy_agents (agents (world env)) ags\<rparr>)
                = ags \<and>
              list_all2 (\<lambda>a a'.
                  (\<not> movable a \<longrightarrow> action_u a' = PArr (zeros (dim_p (world env)))) \<and>
                  (silent a \<longrightarrow> action_c a' = PArr (zeros (dim_c (world env)))))
                (policy_agents (world env)) ags))"
proof (intro conjI impI)
  assume "set_action env action agent sp = Inr agent'" and "\<not> movable agent"
  then show "action_u agent' = PArr (zeros (dim_p (world env)))"
    using set_action_keeps by blast
next
  assume "set_action env action agent sp = Inr agent'" and "silent agent"
  then show "action_c agent' = PArr (zeros (dim_c (world env)))"
    using set_action_keeps by blast
next
  assume "step world_step env action_n = Inr (res, env')"
  from step_Inr[OF this] obtain ags where
    ags: "set_actions env action_n 0 (policy_agents (world env)) = Inr ags"
    and w: "world env' =
      world_step (world env\<lparr>agents := put_policy_agents (agents (world env)) ags\<rparr>)"
    by blast
  have "list_all2 (\<lambda>a a'.
          (\<not> movable a \<longrightarrow> action_u a' = PArr (zeros (dim_p (world env)))) \<and>
          (silent a \<longrightarrow> action_c a' = PArr (zeros (dim_c (world env)))))
        (policy_agents (world env)) ags"
    using set_actions_keep[OF ags] by (rule list_all2_mono) simp
  with w set_actions_policy[OF ags]
  show "\<exists>ags. world env' =
                world_step (world env\<lparr>agents := put_policy_agents (agents (world env)) ags\<rparr>) \<and>
              policy_agents (world env\<lparr>agents := put_policy_agents (agents (world env)) ags\<rparr>)
                = ags \<and>
              list_all2 (\<lambda>a a'.
                  (\<not> movable a \<longrightarrow> action_u a' = PArr (zeros (dim_p (world env)))) \<and>
                  (silent a \<longrightarrow> action_c a' = PArr (zeros (dim_c (world env)))))
                (policy_agents (world env)) ags"
    by blast
qed

lemma pair_decode:
  "set_action env_pair (PInt 1) beacon (Discrete 2) =
     Inr (beacon\<lparr>action_u := PArr [0, 0], action_c := PArr [0, 1]\<rparr>)"
  by (simp add: env_pair_def env_of_def world_1_2_def beacon_def agent0_def set_action_def
        communication_action_def zeros_def eval_nat_numeral)

lemma pair_step:
  "step (\<lambda>w. w) env_pair [PInt 1, PInt 2] =
     Inr ((0, 0, [[], []]),
          env_pair\<lparr>world := (world env_pair)\<lparr>agents :=
                      [beacon\<lparr>action_u := PArr [0, 0], action_c := PArr [0, 1]\<rparr>,
                       agent0\<lparr>action_u := PArr [5, 0], action_c := PArr [0, 0]\<rparr>]\<rparr>,
                    obs_n := [[], []], time := 1\<rparr>)"
  by (simp add: step_def env_pair_def env_of_def world_1_2_def policy_agents_def beacon_def
        agent0_def set_action_def physical_action_def discrete_move_def set_item_def
        communication_action_def zeros_def step_record_def get_obs_cb_def get_reward_def
        get_done_def get_info_def eval_nat_numeral Let_def)

theorem decode_zeroes_unused_controls_witness:
  "set_action env_pair (PInt 1) beacon (Discrete 2) =
     Inr (beacon\<lparr>action_u := PArr [0, 0], action_c := PArr [0, 1]\<rparr>) \<and>
   action_u beacon = PArr [9, 9] \<and>
   action_u (beacon\<lparr>action_u := PArr [0, 0], action_c := PArr [0, 1]\<rparr>)
     = PArr (zeros (dim_p (world env_pair))) \<and>
   (\<exists>res env'. step (\<lambda>w. w) env_pair [PInt 1, PInt 2] = Inr (res, env') \<and>
      map action_u (policy_agents (world env')) = [PArr [0, 0], PArr [5, 0]] \<and>
      map action_c (policy_agents (world env')) = [PArr [0, 1], PArr [0, 0]])"
proof -
  have nm: "\<not> movable beacon" "action_u beacon = PArr [9, 9]"
    by (simp_all add: beacon_def agent0_def)
  from decode_zeroes_unused_controls[of env_pair "PInt 1" beacon "Discrete 2"
      "beacon\<lparr>action_u := PArr [0, 0], action_c := PArr [0, 1]\<rparr>"] pair_decode nm
  have u: "action_u (beacon\<lparr>action_u := PArr [0, 0], action_c := PArr [0, 1]\<rparr>)
     = PArr (zeros (dim_p (world env_pair)))"
    by blast
  have "\<exists>res env'. step (\<lambda>w. w) env_pair [PInt 1, PInt 2] = Inr (res, env') \<and>
      map action_u (policy_agents (world env')) = [PArr [0, 0], PArr [5, 0]] \<and>
      map action_c (policy_agents (world env')) = [PArr [0, 1], PArr [0, 0]]"
    unfolding pair_step
    by (simp add: policy_agents_def beacon_def agent0_def)
  with pair_decode nm u show ?thesis by blast
qed

section \<open>The episode clock\<close>

lemma step_clock:
  assumes "step world_step env action_n = Inr ((reward, done, infos), env')"
  shows "done = (if time env + 1 = time_limit env then 1 else 0) \<and>
         time env' = time env + 1 \<and> time_limit env' = time_limit env"
  using step_Inr[OF assms] by (auto simp: step_record_def Let_def)

lemma run_steps_flags:
  "run_steps world_step env acts = Inr (flags, env') \<Longrightarrow>
   length flags = length acts \<and> time env' = time env + real (length acts) \<and>
   time_limit env' = time_limit env \<and>
   (\<forall>k<length acts. flags ! k = (if time env + real (k + 1) = time_limit env then 1 else 0))"
proof (induction acts arbitrary: env flags)
  case Nil
  then show ?case by simp
next
  case (Cons a acts)
  from Cons.prems obtain reward d infos env1 fl where
    st: "step world_step env a = Inr ((reward, d, infos), env1)"
    and rest: "run_steps world_step env1 acts = Inr (fl, env')"
    and fl: "flags = d # fl"
    by (auto split: sum.splits prod.splits)
  note c = step_clock[OF st]
  note ih = Cons.IH[OF rest]
  show ?case
  proof (intro conjI allI impI)
    show "length flags = length (a # acts)" using ih fl by simp
    show "time env' = time env + real (length (a # acts))" using ih c by simp
    show "time_limit env' = time_limit env" using ih c by simp
    fix k assume "k < length (a # acts)"
    then show "flags ! k = (if time env + real (k + 1) = time_limit env then 1 else 0)"
      using ih c fl by (cases k) (auto simp: add.assoc)
  qed
qed

lemma reset_clock:
  assumes "reset env evaluate = Inr (obs, env0)"
  shows "time env0 = 0 \<and> time_limit env0 = time_limit env"
  using assms
  by (cases "get_obs (env\<lparr>world := the (reset_callback env) (world env), time := 0,
                         num_episodes := (if \<not> evaluate then num_episodes env + 1
                                          else num_episodes env)\<rparr>)")
     (auto simp: reset_def Let_def split: option.splits)

lemmas step_eval = step_def env_of_def world_1_2_def policy_agents_def
  agent0_def set_action_def physical_action_def discrete_move_def set_item_def
  communication_action_def zeros_def step_record_def get_obs_cb_def get_reward_def
  get_done_def get_info_def eval_nat_numeral Let_def

lemma short_reset:
  "reset env_short False =
     Inr ([Floats [0, 0, 0, 0, 1, 1, 2, 3]], env_short\<lparr>time := 0, num_episodes := 1\<rparr>)"
  by (simp add: reset_def env_short_def env_of_def world_1_2_def agent0_def get_obs_def
      policy_agents_def get_obs_agent_def py_index_def vsub_def concatenate_def Let_def
      enumerate_eq_zip)

lemma short_run:
  "map_sum id fst
     (run_steps (\<lambda>w. w) (env_short\<lparr>time := 0, num_episodes := 1\<rparr>)
        [[PInt 0], [PInt 1], [PInt 2]]) = Inr [0, 1, 0]"
  by (simp add: env_short_def step_eval)

text \<open>
  C7. After a reset, which sets the clock to 0, the k-th call of \<open>step\<close> returns the
  termination flag 1 exactly when k equals \<open>time_limit\<close> and 0 otherwise (the flag
  \<open>flags ! k\<close> is the one of call \<open>k + 1\<close>); the comparison is an equality, so later
  calls return 0 again. A later reset zeroes the clock, and the flags of the next
  episode follow the same rule.
\<close>

theorem termination_at_time_limit:
  assumes "reset env evaluate = Inr (obs, env0)"
    "run_steps world_step env0 acts = Inr (flags, env1)"
  shows "time env0 = 0 \<and> length flags = length acts \<and>
    (\<forall>k<length acts. flags ! k = (if real (k + 1) = time_limit env then 1 else 0)) \<and>
    (\<forall>evaluate' obs' env2 acts' flags' env3.
        reset env1 evaluate' = Inr (obs', env2) \<and>
        run_steps world_step env2 acts' = Inr (flags', env3) \<longrightarrow>
        time env2 = 0 \<and>
        (\<forall>k<length acts'. flags' ! k = (if real (k + 1) = time_limit env then 1 else 0)))"
proof -
  note r = reset_clock[OF assms(1)]
  note f = run_steps_flags[OF assms(2)]
  have first: "\<forall>k<length acts. flags ! k = (if real (k + 1) = time_limit env then 1 else 0)"
    using r f by simp
  have again: "\<forall>evaluate' obs' env2 acts' flags' env3.
        reset env1 evaluate' = Inr (obs', env2) \<and>
        run_steps world_step env2 acts' = Inr (flags', env3) \<longrightarrow>
        time env2 = 0 \<and>
        (\<forall>k<length acts'. flags' ! k = (if real (k + 1) = time_limit env then 1 else 0))"
  proof (intro allI impI)
    fix evaluate' :: bool and obs' :: "ndarray list" and env2 env3 :: MultiAgentEnv
      and acts' :: "pyval list list" and flags' :: "real list"
    assume h: "reset env1 evaluate' = Inr (obs', env2) \<and>
        run_steps world_step env2 acts' = Inr (flags', env3)"
    note r' = reset_clock[OF conjunct1[OF h]]
    note f' = run_steps_flags[OF conjunct2[OF h]]
    show "time env2 = 0 \<and>
        (\<forall>k<length acts'. flags' ! k = (if real (k + 1) = time_limit env then 1 else 0))"
      using r r' f f' by simp
  qed
  from r f first again show ?thesis by blast
qed

theorem termination_at_time_limit_witness:
  "\<exists>obs env0 flags env1.
     reset env_short False = Inr (obs, env0) \<and>
     run_steps (\<lambda>w. w) env0 [[PInt 0], [PInt 1], [PInt 2]] = Inr (flags, env1) \<and>
     time_limit env_short = 2 \<and> flags = [0, 1, 0] \<and>
     flags ! 1 = (if real (1 + 1) = time_limit env_short then 1 else 0)"
proof -
  obtain flags env1 where
    run: "run_steps (\<lambda>w. w) (env_short\<lparr>time := 0, num_episodes := 1\<rparr>)
            [[PInt 0], [PInt 1], [PInt 2]] = Inr (flags, env1)"
    and fl: "flags = [0, 1, 0]"
    using short_run
    by (cases "run_steps (\<lambda>w. w) (env_short\<lparr>time := 0, num_episodes := 1\<rparr>)
            [[PInt 0], [PInt 1], [PInt 2]]") auto
  from termination_at_time_limit[OF short_reset run]
  have "flags ! 1 = (if real (1 + 1) = time_limit env_short then 1 else 0)"
    by simp
  moreover have "time_limit env_short = 2"
    by (simp add: env_short_def)
  ultimately show ?thesis
    using short_reset run fl by blast
qed

section \<open>Rewards\<close>




section \<open>Termination and the done callbacks\<close>

lemma decode_done_callback:
  "physical_action (env\<lparr>done_callback := dc\<rparr>) = physical_action env"
  "communication_action (env\<lparr>done_callback := dc\<rparr>) = communication_action env"
  by (simp_all add: fun_eq_iff physical_action_def communication_action_def Let_def
      cong del: if_weak_cong)

lemma set_action_done_callback:
  "set_action (env\<lparr>done_callback := dc\<rparr>) action agent sp = set_action env action agent sp"
  unfolding set_action_def decode_done_callback
  by (simp add: Let_def cong del: if_weak_cong)

lemma set_actions_done_callback:
  "set_actions (env\<lparr>done_callback := dc\<rparr>) action_n i ags = set_actions env action_n i ags"
  by (induction ags arbitrary: i) (simp_all add: set_action_done_callback split: sum.splits)

lemma callbacks_done_callback:
  "get_reward (env\<lparr>done_callback := dc\<rparr>) = get_reward env"
  "get_info (env\<lparr>done_callback := dc\<rparr>) = get_info env"
  "get_obs_cb (env\<lparr>done_callback := dc\<rparr>) = get_obs_cb env"
  by (simp_all add: fun_eq_iff get_reward_def get_info_def get_obs_cb_def)

lemma step_done_callback:
  "map_sum id fst (step world_step (env\<lparr>done_callback := dc\<rparr>) action_n) =
   map_sum id fst (step world_step env action_n)"
  by (simp add: step_def set_actions_done_callback Let_def step_record_def
      callbacks_done_callback split: sum.splits)

lemma pair_step_done:
  "step (\<lambda>w. w) (env_pair\<lparr>time := t, done_callback := dc\<rparr>) [PInt 1, PInt 2] =
     Inr ((0, if t + 1 = 25 then 1 else 0, [[], []]),
          env_pair\<lparr>world := (world env_pair)\<lparr>agents :=
                      [beacon\<lparr>action_u := PArr [0, 0], action_c := PArr [0, 1]\<rparr>,
                       agent0\<lparr>action_u := PArr [5, 0], action_c := PArr [0, 0]\<rparr>]\<rparr>,
                    obs_n := [[], []], time := t + 1, done_callback := dc\<rparr>)"
  by (simp add: env_pair_def beacon_def step_eval)

lemma done_collected:
  "l_done_n (step_record env w) =
     (case done_callback env of
        Some f \<Rightarrow> map (\<lambda>a. f a w) (policy_agents w)
      | None \<Rightarrow> map (\<lambda>a. False) (policy_agents w))"
  by (simp add: step_record_def Let_def get_done_def fun_eq_iff split: option.splits)

text \<open>
  C9. The termination flag that \<open>step\<close> returns is a function of the clock and of
  \<open>time_limit\<close> alone. The done callback is called for every policy agent and its
  values are collected, but they reach neither the flag nor anything else that \<open>step\<close>
  returns. Two successful steps, of any two environments with the same clock and the
  same limit, return the same flag; the flag is 1 when the incremented clock equals the
  limit and 0 otherwise. The list \<open>done_n\<close> that the step collects holds, for every
  policy agent in order, the value of the done callback on that agent and the stepped
  world when a callback is configured, and \<open>False\<close> when none is. Replacing the done
  callback changes neither whether the step succeeds nor what it returns.
\<close>

theorem done_flag_ignores_done_callbacks:
  "(step world_step1 env1 action_n1 = Inr ((reward1, done1, infos1), env1') \<and>
    step world_step2 env2 action_n2 = Inr ((reward2, done2, infos2), env2') \<and>
    time env1 = time env2 \<and> time_limit env1 = time_limit env2 \<longrightarrow>
      done1 = done2 \<and> done1 = (if time env1 + 1 = time_limit env1 then 1 else 0) \<and>
      l_done_n (step_record env1 (world env1')) =
        map (get_done env1 (world env1')) (policy_agents (world env1')) \<and>
      (\<forall>f. done_callback env1 = Some f \<longrightarrow>
         l_done_n (step_record env1 (world env1')) =
           map (\<lambda>a. f a (world env1')) (policy_agents (world env1'))) \<and>
      (done_callback env1 = None \<longrightarrow>
         l_done_n (step_record env1 (world env1')) =
           map (\<lambda>a. False) (policy_agents (world env1')))) \<and>
   map_sum id fst (step world_step (env\<lparr>done_callback := dc\<rparr>) action_n) =
     map_sum id fst (step world_step env action_n)"
proof (intro conjI impI allI)
  assume h: "step world_step1 env1 action_n1 = Inr ((reward1, done1, infos1), env1') \<and>
    step world_step2 env2 action_n2 = Inr ((reward2, done2, infos2), env2') \<and>
    time env1 = time env2 \<and> time_limit env1 = time_limit env2"
  then have s1: "step world_step1 env1 action_n1 = Inr ((reward1, done1, infos1), env1')"
    and s2: "step world_step2 env2 action_n2 = Inr ((reward2, done2, infos2), env2')"
    and eq: "time env1 = time env2" "time_limit env1 = time_limit env2"
    by simp_all
  from step_clock[OF s1] step_clock[OF s2] eq show "done1 = done2" by simp
  from step_clock[OF s1] show "done1 = (if time env1 + 1 = time_limit env1 then 1 else 0)"
    by simp
  show "l_done_n (step_record env1 (world env1')) =
        map (get_done env1 (world env1')) (policy_agents (world env1'))"
    by (simp add: step_record_def Let_def)
next
  fix f
  assume "done_callback env1 = Some f"
  then show "l_done_n (step_record env1 (world env1')) =
           map (\<lambda>a. f a (world env1')) (policy_agents (world env1'))"
    by (simp add: done_collected)
next
  assume "done_callback env1 = None"
  then show "l_done_n (step_record env1 (world env1')) =
           map (\<lambda>a. False) (policy_agents (world env1'))"
    by (simp add: done_collected)
next
  show "map_sum id fst (step world_step (env\<lparr>done_callback := dc\<rparr>) action_n) =
     map_sum id fst (step world_step env action_n)"
    by (rule step_done_callback)
qed

theorem done_flag_ignores_done_callbacks_witness:
  "\<exists>res1 env1' res2 env2'.
     step (\<lambda>w. w) (env_pair\<lparr>time := 24, done_callback := Some (\<lambda>a w. movable a)\<rparr>)
       [PInt 1, PInt 2] = Inr (res1, env1') \<and>
     step (\<lambda>w. w) (env_pair\<lparr>time := 24, done_callback := Some (\<lambda>a w. True)\<rparr>)
       [PInt 1, PInt 2] = Inr (res2, env2') \<and>
     fst (snd res1) = 1 \<and> fst (snd res2) = 1 \<and>
     map movable (policy_agents (world env1')) = [False, True] \<and>
     l_done_n (step_record (env_pair\<lparr>time := 24, done_callback := Some (\<lambda>a w. movable a)\<rparr>)
                 (world env1')) = [False, True]"
proof -
  note a = pair_step_done[where t = 24 and dc = "Some (\<lambda>a w. movable a)"]
  note b = pair_step_done[where t = 24 and dc = "Some (\<lambda>a w. True)"]
  have pre: "time (env_pair\<lparr>time := 24, done_callback := Some (\<lambda>a w. movable a)\<rparr>) =
             time (env_pair\<lparr>time := 24, done_callback := Some (\<lambda>a w. True)\<rparr>) \<and>
             time_limit (env_pair\<lparr>time := 24, done_callback := Some (\<lambda>a w. movable a)\<rparr>) =
             time_limit (env_pair\<lparr>time := 24, done_callback := Some (\<lambda>a w. True)\<rparr>)"
    by simp
  have cb: "done_callback (env_pair\<lparr>time := 24, done_callback := Some (\<lambda>a w. movable a)\<rparr>)
              = Some (\<lambda>a w. movable a)"
    by simp
  have pa: "map movable
             (policy_agents (world (env_pair\<lparr>world := (world env_pair)\<lparr>agents :=
                      [beacon\<lparr>action_u := PArr [0, 0], action_c := PArr [0, 1]\<rparr>,
                       agent0\<lparr>action_u := PArr [5, 0], action_c := PArr [0, 0]\<rparr>]\<rparr>,
                    obs_n := [[], []], time := 24 + 1,
                    done_callback := Some (\<lambda>a w. movable a)\<rparr>))) = [False, True]"
    by (simp add: policy_agents_def beacon_def agent0_def)
  note t = done_flag_ignores_done_callbacks[THEN conjunct1, THEN mp,
      OF conjI[OF a conjI[OF b pre]]]
  from t have "\<forall>f. done_callback
                 (env_pair\<lparr>time := 24, done_callback := Some (\<lambda>a w. movable a)\<rparr>) = Some f \<longrightarrow>
         l_done_n (step_record (env_pair\<lparr>time := 24, done_callback := Some (\<lambda>a w. movable a)\<rparr>)
             (world (env_pair\<lparr>world := (world env_pair)\<lparr>agents :=
                      [beacon\<lparr>action_u := PArr [0, 0], action_c := PArr [0, 1]\<rparr>,
                       agent0\<lparr>action_u := PArr [5, 0], action_c := PArr [0, 0]\<rparr>]\<rparr>,
                    obs_n := [[], []], time := 24 + 1,
                    done_callback := Some (\<lambda>a w. movable a)\<rparr>))) =
           map (\<lambda>a. f a
                  (world (env_pair\<lparr>world := (world env_pair)\<lparr>agents :=
                      [beacon\<lparr>action_u := PArr [0, 0], action_c := PArr [0, 1]\<rparr>,
                       agent0\<lparr>action_u := PArr [5, 0], action_c := PArr [0, 0]\<rparr>]\<rparr>,
                    obs_n := [[], []], time := 24 + 1,
                    done_callback := Some (\<lambda>a w. movable a)\<rparr>)))
             (policy_agents
                  (world (env_pair\<lparr>world := (world env_pair)\<lparr>agents :=
                      [beacon\<lparr>action_u := PArr [0, 0], action_c := PArr [0, 1]\<rparr>,
                       agent0\<lparr>action_u := PArr [5, 0], action_c := PArr [0, 0]\<rparr>]\<rparr>,
                    obs_n := [[], []], time := 24 + 1,
                    done_callback := Some (\<lambda>a w. movable a)\<rparr>)))"
    by blast
  from this[THEN spec, THEN mp, OF cb] pa
  have d: "l_done_n (step_record (env_pair\<lparr>time := 24, done_callback := Some (\<lambda>a w. movable a)\<rparr>)
             (world (env_pair\<lparr>world := (world env_pair)\<lparr>agents :=
                      [beacon\<lparr>action_u := PArr [0, 0], action_c := PArr [0, 1]\<rparr>,
                       agent0\<lparr>action_u := PArr [5, 0], action_c := PArr [0, 0]\<rparr>]\<rparr>,
                    obs_n := [[], []], time := 24 + 1,
                    done_callback := Some (\<lambda>a w. movable a)\<rparr>))) = [False, True]"
    by simp
  from a b d pa show ?thesis by simp
qed

section \<open>Observations: slices and the translation loop\<close>

lemma py_slice_inside:
  assumes "0 \<le> lo" "lo \<le> hi" "hi \<le> int (length xs)"
  shows "length (py_slice xs lo hi) = nat (hi - lo)"
    and "j < nat (hi - lo) \<Longrightarrow> py_slice xs lo hi ! j = xs ! (nat lo + j)"
  using assms by (auto simp: py_slice_nonneg)

lemma slice_assign_inside:
  assumes "0 \<le> off" "0 \<le> w" "off + w \<le> int (length dst)" "length src = nat w"
  shows "slice_assign dst off (off + w) src =
           Inr (take (nat off) dst @ src @ drop (nat off + nat w) dst)"
  using assms
  by (auto simp: slice_assign_def slice_bounds_def slice_norm_nonneg min_def nat_add_distrib)

lemma splice_nth:
  assumes "a + length src \<le> length dst" "p < length dst"
  shows "(take a dst @ src @ drop (a + length src) dst) ! p =
           (if a \<le> p \<and> p < a + length src then src ! (p - a) else dst ! p)"
  using assms by (auto simp: nth_append min_def)

lemma slice_assign_nth:
  assumes "0 \<le> off" "0 \<le> w" "off + w \<le> int (length dst)" "length src = nat w"
  shows "\<exists>new. slice_assign dst off (off + w) src = Inr new \<and> length new = length dst \<and>
     (\<forall>p<length dst. new ! p =
        (if off \<le> int p \<and> int p < off + w then src ! (p - nat off) else dst ! p))"
proof -
  have a: "nat off + length src \<le> length dst" using assms by linarith
  have "\<forall>p<length dst. (take (nat off) dst @ src @ drop (nat off + nat w) dst) ! p =
        (if off \<le> int p \<and> int p < off + w then src ! (p - nat off) else dst ! p)"
  proof (intro allI impI)
    fix p assume p: "p < length dst"
    have "(off \<le> int p \<and> int p < off + w) = (nat off \<le> p \<and> p < nat off + length src)"
      using assms by auto
    with splice_nth[OF a p] assms(4)
    show "(take (nat off) dst @ src @ drop (nat off + nat w) dst) ! p =
        (if off \<le> int p \<and> int p < off + w then src ! (p - nat off) else dst ! p)"
      by simp
  qed
  moreover have "length (take (nat off) dst @ src @ drop (nat off + nat w) dst) = length dst"
    using a assms(4) by simp
  ultimately show ?thesis
    using slice_assign_inside[OF assms] by simp
qed

lemma copy_segment:
  assumes "0 \<le> lo" "lo \<le> hi" "hi \<le> int (length flat)" "0 \<le> off"
    "off + (hi - lo) \<le> int (length dst)"
  shows "\<exists>new. slice_assign dst off (off + (hi - lo)) (py_slice flat lo hi) = Inr new \<and>
     length new = length dst \<and>
     (\<forall>p<length dst. new ! p =
        (if off \<le> int p \<and> int p < off + (hi - lo) then flat ! nat (lo + (int p - off))
         else dst ! p))"
proof -
  have w: "0 \<le> hi - lo" using assms(2) by simp
  have len: "length (py_slice flat lo hi) = nat (hi - lo)"
    using assms(1-3) by (rule py_slice_inside(1))
  from slice_assign_nth[OF assms(4) w assms(5) len] obtain new where
    n: "slice_assign dst off (off + (hi - lo)) (py_slice flat lo hi) = Inr new"
       "length new = length dst"
       "\<forall>p<length dst. new ! p =
          (if off \<le> int p \<and> int p < off + (hi - lo) then py_slice flat lo hi ! (p - nat off)
           else dst ! p)"
    by blast
  have "\<forall>p<length dst. new ! p =
        (if off \<le> int p \<and> int p < off + (hi - lo) then flat ! nat (lo + (int p - off))
         else dst ! p)"
  proof (intro allI impI)
    fix p assume p: "p < length dst"
    show "new ! p =
        (if off \<le> int p \<and> int p < off + (hi - lo) then flat ! nat (lo + (int p - off))
         else dst ! p)"
    proof (cases "off \<le> int p \<and> int p < off + (hi - lo)")
      case True
      then have j: "p - nat off < nat (hi - lo)" using assms(4) by linarith
      have "nat lo + (p - nat off) = nat (lo + (int p - off))"
        using True assms(1,4) by linarith
      with py_slice_inside(2)[OF assms(1-3) j] n(3) p True show ?thesis by simp
    next
      case False
      from n(3) p have "new ! p =
          (if off \<le> int p \<and> int p < off + (hi - lo) then py_slice flat lo hi ! (p - nat off)
           else dst ! p)" by blast
      with False show ?thesis by (simp only: if_False)
    qed
  qed
  with n show ?thesis by blast
qed

lemma translate_three:
  assumes "0 \<le> s0" "s0 \<le> s1" "s1 \<le> s2" "s2 \<le> s3" "s3 \<le> int (length flat)"
    and "0 \<le> t0" "t0 + (s1 - s0) \<le> t3" "0 \<le> t1" "t1 + (s2 - s1) \<le> t3"
        "0 \<le> t2" "t2 + (s3 - s2) \<le> t3"
  shows "\<exists>new. translate [t0, t1, t2, t3] [s0, s1, s2, s3] flat = Inr new \<and>
     length new = nat t3 \<and>
     (\<forall>p<nat t3. new ! p =
        (if t2 \<le> int p \<and> int p < t2 + (s3 - s2) then flat ! nat (s2 + (int p - t2))
         else if t1 \<le> int p \<and> int p < t1 + (s2 - s1) then flat ! nat (s1 + (int p - t1))
         else if t0 \<le> int p \<and> int p < t0 + (s1 - s0) then flat ! nat (s0 + (int p - t0))
         else 0))"
proof -
  have t3: "0 \<le> t3" using assms by linarith
  define z where "z = zeros (nat t3)"
  have lz: "length z = nat t3" and nz: "\<And>p. p < nat t3 \<Longrightarrow> z ! p = 0"
    by (simp_all add: z_def zeros_def)
  have b0: "t0 + (s1 - s0) \<le> int (length z)" using assms t3 lz by simp
  have f0: "s1 \<le> int (length flat)" using assms by linarith
  from copy_segment[OF assms(1,2) f0 assms(6) b0] obtain n1 where
    n1: "slice_assign z t0 (t0 + (s1 - s0)) (py_slice flat s0 s1) = Inr n1"
        "length n1 = length z"
        "\<forall>p<length z. n1 ! p =
          (if t0 \<le> int p \<and> int p < t0 + (s1 - s0) then flat ! nat (s0 + (int p - t0))
           else z ! p)"
    by blast
  have b1: "t1 + (s2 - s1) \<le> int (length n1)" using assms t3 lz n1(2) by simp
  have s1: "0 \<le> s1" "s2 \<le> int (length flat)" using assms by linarith+
  from copy_segment[OF s1(1) assms(3) s1(2) assms(8) b1] obtain n2 where
    n2: "slice_assign n1 t1 (t1 + (s2 - s1)) (py_slice flat s1 s2) = Inr n2"
        "length n2 = length n1"
        "\<forall>p<length n1. n2 ! p =
          (if t1 \<le> int p \<and> int p < t1 + (s2 - s1) then flat ! nat (s1 + (int p - t1))
           else n1 ! p)"
    by blast
  have b2: "t2 + (s3 - s2) \<le> int (length n2)" using assms t3 lz n1(2) n2(2) by simp
  have s2: "0 \<le> s2" using assms by linarith
  from copy_segment[OF s2 assms(4,5,10) b2] obtain n3 where
    n3: "slice_assign n2 t2 (t2 + (s3 - s2)) (py_slice flat s2 s3) = Inr n3"
        "length n3 = length n2"
        "\<forall>p<length n2. n3 ! p =
          (if t2 \<le> int p \<and> int p < t2 + (s3 - s2) then flat ! nat (s2 + (int p - t2))
           else n2 ! p)"
    by blast
  have tr: "translate [t0, t1, t2, t3] [s0, s1, s2, s3] flat = Inr n3"
    using t3 n1(1) n2(1) n3(1)
    by (simp add: translate_def py_index_def z_def eval_nat_numeral)
  have "\<forall>p<nat t3. n3 ! p =
        (if t2 \<le> int p \<and> int p < t2 + (s3 - s2) then flat ! nat (s2 + (int p - t2))
         else if t1 \<le> int p \<and> int p < t1 + (s2 - s1) then flat ! nat (s1 + (int p - t1))
         else if t0 \<le> int p \<and> int p < t0 + (s1 - s0) then flat ! nat (s0 + (int p - t0))
         else 0)"
    using n1(2,3) n2(2,3) n3(3) lz nz by simp
  with tr n1(2) n2(2) n3(2) lz show ?thesis by simp
qed

lemma collect_all_Inr:
  "(\<And>x. x \<in> set xs \<Longrightarrow> f x = Inr (g x)) \<Longrightarrow> collect (map f xs) = Inr (map g xs)"
  by (induction xs) simp_all

lemma filter_enumerate_above:
  "k < m \<Longrightarrow> filter (\<lambda>(i, a). i \<noteq> k) (enumerate m xs) = enumerate m xs"
  by (induction xs arbitrary: m) auto

lemma others_filter:
  "m \<le> k \<Longrightarrow> k < m + length xs \<Longrightarrow>
   map snd (filter (\<lambda>(i, a). i \<noteq> k) (enumerate m xs)) =
     take (k - m) xs @ drop (Suc (k - m)) xs"
proof (induction xs arbitrary: m)
  case Nil
  then show ?case by simp
next
  case (Cons x xs)
  show ?case
  proof (cases "k = m")
    case True
    then show ?thesis by (simp add: filter_enumerate_above)
  next
    case False
    with Cons.prems have "Suc m \<le> k" "k < Suc m + length xs" by simp_all
    note ih = Cons.IH[OF this]
    from False Cons.prems obtain j where j: "k - m = Suc j" "k - Suc m = j"
      by (cases "k - m") auto
    from ih False show ?thesis by (simp add: j)
  qed
qed

section \<open>Observations: the assembled vector\<close>

lemma length_concat_const:
  "(\<And>x. x \<in> set xs \<Longrightarrow> length (f x) = c) \<Longrightarrow> length (concat (map f xs)) = c * length xs"
  by (induction xs) simp_all

lemma planar_agent:
  assumes "planar w" "a \<in> set (agents w)"
  shows "length (p_pos a) = 2" "length (p_vel a) = 2"
  using assms by (auto simp: planar_def list_all_iff)

lemma planar_landmark:
  assumes "planar w" "l \<in> set (landmarks w)"
  shows "length (lm_pos l) = 2"
  using assms by (auto simp: planar_def list_all_iff)

lemma obs_lengths:
  assumes "planar w" "k < length (agents w)"
  shows "length (obs_self w k) = 4"
    and "length (obs_others w k) = 2 * (length (agents w) - 1)"
    and "length (obs_landmarks w k) = 2 * length (landmarks w)"
proof -
  have a: "agents w ! k \<in> set (agents w)" using assms(2) by simp
  note pa = planar_agent[OF assms(1) a]
  show "length (obs_self w k) = 4" using pa by (simp add: obs_self_def)
  have "\<And>x. x \<in> set (take k (agents w) @ drop (Suc k) (agents w)) \<Longrightarrow>
      length (map2 (-) (p_pos (agents w ! k)) (p_pos x)) = 2"
    using pa planar_agent(1)[OF assms(1)] by (auto dest: in_set_takeD in_set_dropD)
  from length_concat_const[of _ "\<lambda>a. map2 (-) (p_pos (agents w ! k)) (p_pos a)", OF this]
  show "length (obs_others w k) = 2 * (length (agents w) - 1)"
    using assms(2) by (simp add: obs_others_def min_def)
  have "\<And>l. l \<in> set (landmarks w) \<Longrightarrow>
      length (map2 (-) (lm_pos l) (p_pos (agents w ! k))) = 2"
    using pa planar_landmark[OF assms(1)] by simp
  from length_concat_const[of _ "\<lambda>l. map2 (-) (lm_pos l) (p_pos (agents w ! k))", OF this]
  show "length (obs_landmarks w k) = 2 * length (landmarks w)"
    by (simp add: obs_landmarks_def)
qed

lemma obs_collects:
  assumes "planar w" "k < length (agents w)"
  shows "collect (map (\<lambda>(i, a). vsub (p_pos (agents w ! k)) (p_pos a))
                     (filter (\<lambda>(i, a). i \<noteq> k) (enumerate 0 (agents w)))) =
         Inr (map (\<lambda>a. map2 (-) (p_pos (agents w ! k)) (p_pos a))
                (take k (agents w) @ drop (Suc k) (agents w)))"
    and "collect (map (\<lambda>l. vsub (lm_pos l) (p_pos (agents w ! k))) (landmarks w)) =
         Inr (map (\<lambda>l. map2 (-) (lm_pos l) (p_pos (agents w ! k))) (landmarks w))"
proof -
  have a: "agents w ! k \<in> set (agents w)" using assms(2) by simp
  note pa = planar_agent[OF assms(1) a]
  have eq: "map (\<lambda>(i, a). vsub (p_pos (agents w ! k)) (p_pos a))
                     (filter (\<lambda>(i, a). i \<noteq> k) (enumerate 0 (agents w))) =
        map (\<lambda>a. vsub (p_pos (agents w ! k)) (p_pos a))
          (map snd (filter (\<lambda>(i, a). i \<noteq> k) (enumerate 0 (agents w))))"
    by (simp add: case_prod_unfold comp_def)
  have o: "map snd (filter (\<lambda>(i, a). i \<noteq> k) (enumerate 0 (agents w))) =
      take k (agents w) @ drop (Suc k) (agents w)"
    using others_filter[of 0 k "agents w"] assms(2) by simp
  have v: "\<And>x. x \<in> set (take k (agents w) @ drop (Suc k) (agents w)) \<Longrightarrow>
      vsub (p_pos (agents w ! k)) (p_pos x) = Inr (map2 (-) (p_pos (agents w ! k)) (p_pos x))"
    using pa planar_agent(1)[OF assms(1)]
    by (auto simp: vsub_def dest: in_set_takeD in_set_dropD)
  have "collect (map (\<lambda>a. vsub (p_pos (agents w ! k)) (p_pos a))
                  (take k (agents w) @ drop (Suc k) (agents w))) =
         Inr (map (\<lambda>a. map2 (-) (p_pos (agents w ! k)) (p_pos a))
                (take k (agents w) @ drop (Suc k) (agents w)))"
    by (rule collect_all_Inr) (rule v)
  then show "collect (map (\<lambda>(i, a). vsub (p_pos (agents w ! k)) (p_pos a))
                     (filter (\<lambda>(i, a). i \<noteq> k) (enumerate 0 (agents w)))) =
         Inr (map (\<lambda>a. map2 (-) (p_pos (agents w ! k)) (p_pos a))
                (take k (agents w) @ drop (Suc k) (agents w)))"
    unfolding eq o .
  have "\<And>l. l \<in> set (landmarks w) \<Longrightarrow>
      vsub (lm_pos l) (p_pos (agents w ! k)) = Inr (map2 (-) (lm_pos l) (p_pos (agents w ! k)))"
    using pa planar_landmark[OF assms(1)] by (simp add: vsub_def)
  then show "collect (map (\<lambda>l. vsub (lm_pos l) (p_pos (agents w ! k))) (landmarks w)) =
         Inr (map (\<lambda>l. map2 (-) (lm_pos l) (p_pos (agents w ! k))) (landmarks w))"
    by (rule collect_all_Inr)
qed

lemma get_obs_agent_planar:
  assumes "planar (world env)" "k < length (agents (world env))"
  shows "get_obs_agent env (int k) structure =
     (if structure then Inr (Ints (obs_descriptor (world env)))
      else (case translate_observation env of
              Some tr \<Rightarrow> map_sum id Floats
                 (translate tr (obs_descriptor (world env)) (obs_flat (world env) k))
            | None \<Rightarrow> Inr (Floats (obs_flat (world env) k))))"
  using assms(2)
  by (simp add: get_obs_agent_def py_index_def obs_collects[OF assms] Let_def
      obs_descriptor_def obs_widths_def obs_flat_def obs_self_def obs_others_def
      obs_landmarks_def concatenate_def split: option.splits)

lemma obs_descriptor_explicit:
  "obs_descriptor w =
     [0, 4, 4 + 2 * (int (length (agents w)) - 1),
      4 + 2 * (int (length (agents w)) - 1) + 2 * int (length (landmarks w))]"
  by (simp add: obs_descriptor_def obs_widths_def cumsum4)

lemma obs_round_trip:
  assumes "planar w" "k < length (agents w)"
  shows "last (obs_descriptor w) = int (length (obs_flat w k))"
    and "concat (map (\<lambda>(a, b). py_slice (obs_flat w k) a b)
                  (zip (obs_descriptor w) (tl (obs_descriptor w)))) = obs_flat w k"
proof -
  note l = obs_lengths[OF assms]
  have n: "1 \<le> length (agents w)" using assms(2) by simp
  show "last (obs_descriptor w) = int (length (obs_flat w k))"
    using l n by (simp add: obs_descriptor_explicit obs_flat_def)
  have s0: "py_slice (obs_flat w k) 0 4 = obs_self w k"
    using l by (simp add: py_slice_nonneg obs_flat_def)
  have s1: "py_slice (obs_flat w k) 4 (4 + 2 * (int (length (agents w)) - 1)) = obs_others w k"
    using l n by (simp add: py_slice_nonneg obs_flat_def nat_diff_distrib nat_mult_distrib)
  have s2: "py_slice (obs_flat w k) (4 + 2 * (int (length (agents w)) - 1))
              (4 + 2 * (int (length (agents w)) - 1) + 2 * int (length (landmarks w)))
            = obs_landmarks w k"
    using l n
    by (simp add: py_slice_nonneg obs_flat_def nat_diff_distrib nat_mult_distrib
        nat_add_distrib)
  show "concat (map (\<lambda>(a, b). py_slice (obs_flat w k) a b)
                  (zip (obs_descriptor w) (tl (obs_descriptor w)))) = obs_flat w k"
    unfolding obs_descriptor_explicit
    by (simp only: list.sel zip_Cons_Cons zip_Nil list.map prod.case concat.simps s0 s1 s2
          append_Nil2 obs_flat_def[symmetric])
       (simp add: obs_flat_def)
qed

lemma translate_disjoint:
  assumes w: "0 \<le> w0" "0 \<le> w1" "0 \<le> w2" "int (length flat) = w0 + w1 + w2"
    and inside: "0 \<le> t0" "t0 + w0 \<le> t3" "0 \<le> t1" "t1 + w1 \<le> t3" "0 \<le> t2" "t2 + w2 \<le> t3"
    and apart: "t0 + w0 \<le> t1 \<or> t1 + w1 \<le> t0" "t0 + w0 \<le> t2 \<or> t2 + w2 \<le> t0"
      "t1 + w1 \<le> t2 \<or> t2 + w2 \<le> t1"
  shows "\<exists>new. translate [t0, t1, t2, t3] [0, w0, w0 + w1, w0 + w1 + w2] flat = Inr new \<and>
     int (length new) = t3 \<and>
     (\<forall>j. 0 \<le> j \<and> j < w0 \<longrightarrow> new ! nat (t0 + j) = flat ! nat j) \<and>
     (\<forall>j. 0 \<le> j \<and> j < w1 \<longrightarrow> new ! nat (t1 + j) = flat ! nat (w0 + j)) \<and>
     (\<forall>j. 0 \<le> j \<and> j < w2 \<longrightarrow> new ! nat (t2 + j) = flat ! nat (w0 + w1 + j)) \<and>
     (\<forall>p<length new.
        \<not> (t0 \<le> int p \<and> int p < t0 + w0) \<and> \<not> (t1 \<le> int p \<and> int p < t1 + w1) \<and>
        \<not> (t2 \<le> int p \<and> int p < t2 + w2) \<longrightarrow> new ! p = 0)"
proof -
  have t3: "0 \<le> t3" using w inside by linarith
  have "\<exists>new. translate [t0, t1, t2, t3] [0, w0, w0 + w1, w0 + w1 + w2] flat = Inr new \<and>
     length new = nat t3 \<and>
     (\<forall>p<nat t3. new ! p =
        (if t2 \<le> int p \<and> int p < t2 + (w0 + w1 + w2 - (w0 + w1))
           then flat ! nat (w0 + w1 + (int p - t2))
         else if t1 \<le> int p \<and> int p < t1 + (w0 + w1 - w0) then flat ! nat (w0 + (int p - t1))
         else if t0 \<le> int p \<and> int p < t0 + (w0 - 0) then flat ! nat (0 + (int p - t0))
         else 0))"
    using w inside by (intro translate_three) simp_all
  then obtain new where tr: "translate [t0, t1, t2, t3] [0, w0, w0 + w1, w0 + w1 + w2] flat = Inr new"
    and len: "length new = nat t3"
    and nth: "\<And>p. p < nat t3 \<Longrightarrow> new ! p =
        (if t2 \<le> int p \<and> int p < t2 + w2 then flat ! nat (w0 + w1 + (int p - t2))
         else if t1 \<le> int p \<and> int p < t1 + w1 then flat ! nat (w0 + (int p - t1))
         else if t0 \<le> int p \<and> int p < t0 + w0 then flat ! nat (int p - t0)
         else 0)"
    by auto
  have a: "\<forall>j. 0 \<le> j \<and> j < w0 \<longrightarrow> new ! nat (t0 + j) = flat ! nat j"
  proof (intro allI impI)
    fix j assume j: "0 \<le> j \<and> j < w0"
    then have p: "nat (t0 + j) < nat t3" "int (nat (t0 + j)) = t0 + j"
      using inside by linarith+
    have "\<not> (t2 \<le> t0 + j \<and> t0 + j < t2 + w2)" "\<not> (t1 \<le> t0 + j \<and> t0 + j < t1 + w1)"
      using j apart by linarith+
    with nth[OF p(1)] p(2) j show "new ! nat (t0 + j) = flat ! nat j" by simp
  qed
  have b: "\<forall>j. 0 \<le> j \<and> j < w1 \<longrightarrow> new ! nat (t1 + j) = flat ! nat (w0 + j)"
  proof (intro allI impI)
    fix j assume j: "0 \<le> j \<and> j < w1"
    then have p: "nat (t1 + j) < nat t3" "int (nat (t1 + j)) = t1 + j"
      using inside by linarith+
    have "\<not> (t2 \<le> t1 + j \<and> t1 + j < t2 + w2)"
      using j apart by linarith
    with nth[OF p(1)] p(2) j show "new ! nat (t1 + j) = flat ! nat (w0 + j)" by simp
  qed
  have c: "\<forall>j. 0 \<le> j \<and> j < w2 \<longrightarrow> new ! nat (t2 + j) = flat ! nat (w0 + w1 + j)"
  proof (intro allI impI)
    fix j assume j: "0 \<le> j \<and> j < w2"
    then have p: "nat (t2 + j) < nat t3" "int (nat (t2 + j)) = t2 + j"
      using inside by linarith+
    with nth[OF p(1)] j show "new ! nat (t2 + j) = flat ! nat (w0 + w1 + j)" by simp
  qed
  have d: "\<forall>p<length new.
        \<not> (t0 \<le> int p \<and> int p < t0 + w0) \<and> \<not> (t1 \<le> int p \<and> int p < t1 + w1) \<and>
        \<not> (t2 \<le> int p \<and> int p < t2 + w2) \<longrightarrow> new ! p = 0"
    using nth len by simp
  have "int (length new) = t3" using len t3 by simp
  with tr a b c d show ?thesis by blast
qed

lemma list4: "length xs = 4 \<Longrightarrow> xs = [xs ! 0, xs ! 1, xs ! 2, xs ! 3]"
  by (auto simp: list_eq_iff_nth_eq less_Suc_eq eval_nat_numeral)

lemma less3: "(i::nat) < 3 \<longleftrightarrow> i = 0 \<or> i = 1 \<or> i = 2"
  by auto

lemmas obs_eval = env_obs_def env_of_def world_2_1_def agent0_def get_obs_agent_def
  py_index_def vsub_def concatenate_def Let_def enumerate_eq_zip cumsum4

lemma env_obs_flat:
  "get_obs_agent env_obs (int 0) False = Inr (Floats [1, 2, 3, 4, - 4, - 5, 9, 18])"
  by (simp add: obs_eval)

lemma env_obs_structure:
  "get_obs_agent env_obs (int 0) True = Inr (Ints [0, 4, 6, 8])"
  by (simp add: obs_eval)

lemma env_tr_obs:
  "get_obs_agent env_tr (int 0) False =
     Inr (Floats [1, 2, 3, 4, 0, 0, - 4, - 5, 9, 18, 0, 0])"
  by (simp add: env_tr_def obs_eval translate_def slice_assign_def slice_bounds_def
      slice_norm_def py_slice_def zeros_def eval_nat_numeral)

lemma env_obs_ok:
  "planar (world env_obs)" "(0::nat) < length (agents (world env_obs))"
  "planar (world env_tr)" "(0::nat) < length (agents (world env_tr))"
  "valid_map [0, 6, 8, 12] (obs_widths (world env_tr))"
  "translate_observation env_tr = Some [0, 6, 8, 12]"
  "translate_observation env_obs = None"
  by (simp_all add: env_tr_def env_obs_def env_of_def world_2_1_def agent0_def planar_def
      valid_map_def seg_inside_def seg_apart_def obs_widths_def eval_nat_numeral)

section \<open>Observations: descriptor, round trip and translation\<close>

text \<open>
  C6. With no translation map, in a world whose positions and velocities are
  two-dimensional, and for the index \<open>k\<close> of an agent of the world:
  \<open>get_obs_agent(k, structure=True)\<close> is the cumulative sum, from 0, of the widths 4,
  \<open>2 * (n_agents - 1)\<close> and \<open>2 * n_landmarks\<close>; \<open>get_obs_agent(k)\<close> is the flat
  vector of the three segments; the last entry of the descriptor is the length of that
  vector; and the slices of the vector between consecutive entries of the descriptor,
  concatenated, are the vector.
\<close>

theorem observation_round_trip:
  assumes "translate_observation env = None" "planar (world env)"
    "k < length (agents (world env))"
  shows "get_obs_agent env (int k) True =
       Inr (Ints (cumsum [0, 4, 2 * (int (length (agents (world env))) - 1),
                          2 * int (length (landmarks (world env)))])) \<and>
     obs_descriptor (world env) =
       cumsum [0, 4, 2 * (int (length (agents (world env))) - 1),
               2 * int (length (landmarks (world env)))] \<and>
     get_obs_agent env (int k) False = Inr (Floats (obs_flat (world env) k)) \<and>
     last (obs_descriptor (world env)) = int (length (obs_flat (world env) k)) \<and>
     concat (map (\<lambda>(a, b). py_slice (obs_flat (world env) k) a b)
               (zip (obs_descriptor (world env)) (tl (obs_descriptor (world env)))))
       = obs_flat (world env) k"
proof -
  have d: "obs_descriptor (world env) =
       cumsum [0, 4, 2 * (int (length (agents (world env))) - 1),
               2 * int (length (landmarks (world env)))]"
    by (simp add: obs_descriptor_def obs_widths_def)
  have s: "get_obs_agent env (int k) True = Inr (Ints (obs_descriptor (world env)))"
    using get_obs_agent_planar[OF assms(2,3), of True] by simp
  have f: "get_obs_agent env (int k) False = Inr (Floats (obs_flat (world env) k))"
    using get_obs_agent_planar[OF assms(2,3), of False] assms(1) by simp
  note r = obs_round_trip[OF assms(2,3)]
  from s d f r show ?thesis by simp
qed

theorem observation_round_trip_witness:
  "get_obs_agent env_obs (int 0) True = Inr (Ints [0, 4, 6, 8]) \<and>
   get_obs_agent env_obs (int 0) False = Inr (Floats [1, 2, 3, 4, - 4, - 5, 9, 18]) \<and>
   obs_flat (world env_obs) 0 = [1, 2, 3, 4, - 4, - 5, 9, 18] \<and>
   last (obs_descriptor (world env_obs)) = 8"
proof -
  note t = observation_round_trip[OF env_obs_ok(7) env_obs_ok(1) env_obs_ok(2)]
  from t env_obs_flat have f: "obs_flat (world env_obs) 0 = [1, 2, 3, 4, - 4, - 5, 9, 18]"
    by simp
  from t have "last (obs_descriptor (world env_obs)) = int (length (obs_flat (world env_obs) 0))"
    by blast
  with f have "last (obs_descriptor (world env_obs)) = 8" by simp
  with env_obs_structure env_obs_flat f show ?thesis by blast
qed

text \<open>
  C5. When a translation map is configured, and it is a translation map as the
  specification's data model has it (one offset for each of the three segments and the
  destination width last, every segment inside the destination, no two segments
  overlapping), then in a world whose positions and velocities are two-dimensional
  \<open>get_obs_agent(k)\<close> returns a vector whose length is the last entry of the map; segment
  \<open>i\<close>, of width \<open>w_i\<close>, occupies the positions from \<open>map[i]\<close> up to \<open>map[i] + w_i\<close> with
  its untranslated contents; every other position is zero. With no map, the result is
  the untranslated flat vector.
\<close>

theorem translated_observation:
  assumes "translate_observation env = Some tr"
    "valid_map tr (obs_widths (world env))"
    "planar (world env)" "k < length (agents (world env))"
  shows "\<exists>new. get_obs_agent env (int k) False = Inr (Floats new) \<and>
     int (length new) = last tr \<and>
     (\<forall>i<3. \<forall>j. 0 \<le> j \<and> j < obs_widths (world env) ! i \<longrightarrow>
        new ! nat (tr ! i + j) = obs_flat (world env) k ! nat (obs_descriptor (world env) ! i + j)) \<and>
     (\<forall>p<length new.
        (\<forall>i<3. \<not> (tr ! i \<le> int p \<and> int p < tr ! i + obs_widths (world env) ! i))
        \<longrightarrow> new ! p = 0) \<and>
     get_obs_agent (env\<lparr>translate_observation := None\<rparr>) (int k) False =
       Inr (Floats (obs_flat (world env) k))"
proof -
  define w where "w = world env"
  define w1 where "w1 = 2 * (int (length (agents w)) - 1)"
  define w2 where "w2 = 2 * int (length (landmarks w))"
  define flat where "flat = obs_flat w k"
  have pl: "planar w" and kk: "k < length (agents w)" using assms(3,4) by (simp_all add: w_def)
  have ws: "obs_widths w = [4, w1, w2]"
    by (simp add: obs_widths_def w1_def w2_def)
  have ds: "obs_descriptor w = [0, 4, 4 + w1, 4 + w1 + w2]"
    by (simp add: obs_descriptor_explicit w1_def w2_def)
  have vm: "valid_map tr [4, w1, w2]" using assms(2) by (simp add: w_def[symmetric] ws)
  then have len4: "length tr = 4" by (simp add: valid_map_def)
  have trl: "tr = [tr ! 0, tr ! 1, tr ! 2, tr ! 3]" using len4 by (rule list4)
  have lastt: "last tr = tr ! 3" by (subst (1) trl) simp
  have nonneg: "(0::int) \<le> 4" "0 \<le> w1" "0 \<le> w2" using kk by (simp_all add: w1_def w2_def)
  have lf: "int (length flat) = 4 + w1 + w2"
    using obs_lengths[OF pl kk] kk by (simp add: flat_def obs_flat_def w1_def w2_def)
  have inside: "0 \<le> tr ! 0" "tr ! 0 + 4 \<le> tr ! 3" "0 \<le> tr ! 1" "tr ! 1 + w1 \<le> tr ! 3"
    "0 \<le> tr ! 2" "tr ! 2 + w2 \<le> tr ! 3"
    using vm by (simp_all add: valid_map_def seg_inside_def)
  have apart: "tr ! 0 + 4 \<le> tr ! 1 \<or> tr ! 1 + w1 \<le> tr ! 0"
    "tr ! 0 + 4 \<le> tr ! 2 \<or> tr ! 2 + w2 \<le> tr ! 0"
    "tr ! 1 + w1 \<le> tr ! 2 \<or> tr ! 2 + w2 \<le> tr ! 1"
    using vm by (simp_all add: valid_map_def seg_apart_def)
  from translate_disjoint[OF nonneg lf inside apart] obtain new where
    t: "translate [tr ! 0, tr ! 1, tr ! 2, tr ! 3] [0, 4, 4 + w1, 4 + w1 + w2] flat = Inr new"
    and ln: "int (length new) = tr ! 3"
    and a: "\<And>j. 0 \<le> j \<and> j < 4 \<Longrightarrow> new ! nat (tr ! 0 + j) = flat ! nat j"
    and b: "\<And>j. 0 \<le> j \<and> j < w1 \<Longrightarrow> new ! nat (tr ! 1 + j) = flat ! nat (4 + j)"
    and c: "\<And>j. 0 \<le> j \<and> j < w2 \<Longrightarrow> new ! nat (tr ! 2 + j) = flat ! nat (4 + w1 + j)"
    and d: "\<And>p. p < length new \<Longrightarrow>
        \<not> (tr ! 0 \<le> int p \<and> int p < tr ! 0 + 4) \<and> \<not> (tr ! 1 \<le> int p \<and> int p < tr ! 1 + w1) \<and>
        \<not> (tr ! 2 \<le> int p \<and> int p < tr ! 2 + w2) \<Longrightarrow> new ! p = 0"
    by blast
  have t': "translate tr (obs_descriptor w) flat = Inr new"
    using t trl ds by simp
  have g: "get_obs_agent env (int k) False = Inr (Floats new)"
    using get_obs_agent_planar[OF assms(3,4), of False] assms(1) t'
    by (simp add: w_def flat_def)
  have seg: "\<forall>i<3. \<forall>j. 0 \<le> j \<and> j < obs_widths w ! i \<longrightarrow>
        new ! nat (tr ! i + j) = flat ! nat (obs_descriptor w ! i + j)"
    unfolding less3 ws ds using a b c by auto
  have zero: "\<forall>p<length new.
        (\<forall>i<3. \<not> (tr ! i \<le> int p \<and> int p < tr ! i + obs_widths w ! i)) \<longrightarrow> new ! p = 0"
  proof (intro allI impI)
    fix p assume p: "p < length new"
      and h: "\<forall>i<3. \<not> (tr ! i \<le> int p \<and> int p < tr ! i + obs_widths w ! i)"
    from h have "\<not> (tr ! 0 \<le> int p \<and> int p < tr ! 0 + 4) \<and>
        \<not> (tr ! 1 \<le> int p \<and> int p < tr ! 1 + w1) \<and>
        \<not> (tr ! 2 \<le> int p \<and> int p < tr ! 2 + w2)"
      unfolding less3 ws by auto
    with d[OF p] show "new ! p = 0" by blast
  qed
  have none: "get_obs_agent (env\<lparr>translate_observation := None\<rparr>) (int k) False =
       Inr (Floats (obs_flat (world env) k))"
    using get_obs_agent_planar[of "env\<lparr>translate_observation := None\<rparr>" k False] assms(3,4)
    by simp
  from g ln lastt seg zero none show ?thesis
    unfolding w_def flat_def by auto
qed

theorem translated_observation_witness:
  "get_obs_agent env_tr (int 0) False =
     Inr (Floats [1, 2, 3, 4, 0, 0, - 4, - 5, 9, 18, 0, 0]) \<and>
   last [0, 6, 8, 12 :: int] = 12 \<and>
   get_obs_agent (env_tr\<lparr>translate_observation := None\<rparr>) (int 0) False =
     Inr (Floats (obs_flat (world env_tr) 0))"
proof -
  from translated_observation[OF env_obs_ok(6) env_obs_ok(5) env_obs_ok(3) env_obs_ok(4)]
  have "get_obs_agent (env_tr\<lparr>translate_observation := None\<rparr>) (int 0) False =
     Inr (Floats (obs_flat (world env_tr) 0))"
    by blast
  with env_tr_obs show ?thesis by simp
qed

end
